theory Spec2Isabelle
  imports Main "HOL-Library.Char_ord" "HOL-Library.List_Lexorder" "HOL-Library.Multiset"
begin

section \<open>pycsw.core.admin: loading, exporting and refreshing catalogue records\<close>

text \<open>
  A shallow embedding of three functions of \<^verbatim>\<open>pycsw/core/admin.py\<close>:
  \<^verbatim>\<open>load_records\<close>, \<^verbatim>\<open>export_records\<close> and \<^verbatim>\<open>refresh_harvested_records\<close>.
  Strings are byte lists compared lexicographically, as Python compares \<^verbatim>\<open>str\<close> values
  by code point. Exceptions are values of the datatype \<open>exn\<close>; a function that may raise
  returns a sum, and a run that ends in an uncaught exception keeps the state reached so far.
  The collaborators that are imported from other modules (the JSON and XML parsers,
  \<^verbatim>\<open>metadata.parse_record\<close>, the repository, \<^verbatim>\<open>util.secure_filename\<close>, the OWSLib client)
  are parameters of the model, collected in environment records.
\<close>

subsection \<open>Paths (posixpath)\<close>

definition sep :: char where
  "sep = CHR ''/''"

text \<open>\<^verbatim>\<open>str.endswith\<close> and \<^verbatim>\<open>str.startswith\<close>.\<close>

definition endswith :: "string \<Rightarrow> string \<Rightarrow> bool" where
  "endswith s suf = (length suf \<le> length s \<and> drop (length s - length suf) s = suf)"

definition startswith :: "string \<Rightarrow> string \<Rightarrow> bool" where
  "startswith s pre = (take (length pre) s = pre)"

text \<open>
  \<^verbatim>\<open>os.path.join(a, b)\<close>: an absolute second component replaces the first; otherwise
  the components are joined by one separator, unless the first is empty or already ends in one.
\<close>

definition path_join :: "string \<Rightarrow> string \<Rightarrow> string" where
  "path_join a b =
     (if startswith b [sep] then b
      else if a = [] \<or> endswith a [sep] then a @ b
      else a @ [sep] @ b)"

text \<open>\<^verbatim>\<open>head.rstrip(sep)\<close>.\<close>

definition rstrip_sep :: "string \<Rightarrow> string" where
  "rstrip_sep s = rev (dropWhile (\<lambda>c. c = sep) (rev s))"

text \<open>
  \<^verbatim>\<open>os.path.split(p)\<close>: the tail is what follows the last separator; the head is the rest,
  with its trailing separators removed unless it consists of separators only.
\<close>

definition path_split :: "string \<Rightarrow> string \<times> string" where
  "path_split p =
     (let tail = rev (takeWhile (\<lambda>c. c \<noteq> sep) (rev p));
          head = take (length p - length tail) p
      in (if head \<noteq> [] \<and> \<not> list_all (\<lambda>c. c = sep) head then rstrip_sep head else head, tail))"

subsection \<open>The file system below the scanned path\<close>

text \<open>
  What the operating system finds at a path: a regular file, or a directory with its entries
  in the order in which it enumerates them.
\<close>

datatype fsnode = File | Dir "(string \<times> fsnode) list"

text \<open>
  The file system as \<^verbatim>\<open>load_records\<close> meets it. \<open>node_at p\<close> is what \<^verbatim>\<open>os.path.isfile\<close>,
  \<^verbatim>\<open>os.walk\<close> and the directory listings of \<^verbatim>\<open>glob\<close> find at the path \<open>p\<close> (\<open>None\<close> when
  there is nothing). \<open>glob_dirs dirname\<close> is \<^verbatim>\<open>glob\<close>'s expansion of a directory part that
  holds pattern characters, the call \<^verbatim>\<open>_iglob(dirname, ..., dironly=True)\<close> of the standard
  library: the paths of the directories that match \<open>dirname\<close> read as a pattern.
\<close>

record file_system =
  node_at :: "string \<Rightarrow> fsnode option"
  glob_dirs :: "string \<Rightarrow> string list"

fun is_dir :: "fsnode \<Rightarrow> bool" where
  "is_dir File = False"
| "is_dir (Dir es) = True"

text \<open>
  \<^verbatim>\<open>os.walk(top)\<close>, top-down: one triple \<^verbatim>\<open>(root, dirs, files)\<close> for the directory itself,
  then the walks of its subdirectories. A top that is not a directory yields nothing
  (the error of \<^verbatim>\<open>scandir\<close> is ignored).
\<close>

fun walk :: "string \<Rightarrow> fsnode \<Rightarrow> (string \<times> string list \<times> string list) list" where
  "walk topdir File = []"
| "walk topdir (Dir es) =
     (topdir, map fst (filter (\<lambda>e. is_dir (snd e)) es), map fst (filter (\<lambda>e. \<not> is_dir (snd e)) es))
     # concat (map (\<lambda>e. walk (path_join topdir (fst e)) (snd e)) (filter (\<lambda>e. is_dir (snd e)) es))"

text \<open>
  \<^verbatim>\<open>fnmatch\<close> for patterns made of literal characters and \<^verbatim>\<open>*\<close>, which are the patterns
  \<^verbatim>\<open>load_records\<close> uses (\<^verbatim>\<open>*.xml\<close> and \<^verbatim>\<open>*.json\<close>): \<open>fnmatch name pat\<close>.
\<close>

fun fnmatch :: "string \<Rightarrow> string \<Rightarrow> bool" where
  "fnmatch [] [] = True"
| "fnmatch (c # cs) [] = False"
| "fnmatch [] (p # ps) = (p = CHR ''*'' \<and> fnmatch [] ps)"
| "fnmatch (c # cs) (p # ps) =
     (if p = CHR ''*'' then fnmatch (c # cs) ps \<or> fnmatch cs (p # ps)
      else c = p \<and> fnmatch cs ps)"

text \<open>\<^verbatim>\<open>glob.has_magic\<close> and \<^verbatim>\<open>glob._ishidden\<close>.\<close>

definition has_magic :: "string \<Rightarrow> bool" where
  "has_magic s = (\<exists>c \<in> set s. c = CHR ''*'' \<or> c = CHR ''?'' \<or> c = CHR ''['')"

definition ishidden :: "string \<Rightarrow> bool" where
  "ishidden name = startswith name ''.''"

text \<open>
  \<^verbatim>\<open>glob._glob1(dirname, pattern)\<close>: the names in the directory that match the pattern;
  names that begin with a dot are left out unless the pattern begins with one.
  A directory that cannot be listed gives no names.
\<close>

fun listdir :: "fsnode option \<Rightarrow> string list" where
  "listdir (Some (Dir es)) = map fst es"
| "listdir _ = []"

definition glob1 :: "fsnode option \<Rightarrow> string \<Rightarrow> string list" where
  "glob1 node pat =
     filter (\<lambda>n. fnmatch n pat)
       (if ishidden pat then listdir node else filter (\<lambda>n. \<not> ishidden n) (listdir node))"

text \<open>
  \<^verbatim>\<open>glob(pathname)\<close> for a pathname whose last component is a pattern. Without a directory
  part the names are those of the current directory. Otherwise the directory part is read as
  a pattern itself when it holds pattern characters, and stands for the directories it
  expands to; when it holds none it stands for itself. In each of these directories the
  matching names are listed and joined to the directory.
\<close>

definition glob :: "file_system \<Rightarrow> string \<Rightarrow> string list" where
  "glob F pathname =
     (let (dirname, basename) = path_split pathname
      in if dirname = [] then glob1 (node_at F ''.'') basename
         else concat (map (\<lambda>dir. map (path_join dir) (glob1 (node_at F dir) basename))
                (if dirname \<noteq> pathname \<and> has_magic dirname then glob_dirs F dirname
                 else [dirname])))"

text \<open>
  The first lines of \<^verbatim>\<open>load_records\<close>: the candidate file list. \<^verbatim>\<open>os.walk\<close> descends
  the tree of the node it finds at \<^verbatim>\<open>xml_dirpath\<close>; the tree holds directories and regular
  files only.
\<close>

definition file_list_of :: "file_system \<Rightarrow> string \<Rightarrow> bool \<Rightarrow> string list" where
  "file_list_of F xml_dirpath recursive =
     (if node_at F xml_dirpath = Some File then [xml_dirpath]
      else if recursive then
        (case node_at F xml_dirpath of
           None \<Rightarrow> []
         | Some t \<Rightarrow>
             concat (map (\<lambda>(root, dirs, files).
                       map (path_join root) (filter (\<lambda>mfile. endswith mfile ''.xml'') files))
                     (walk xml_dirpath t)))
      else glob F (path_join xml_dirpath ''*.xml'') @ glob F (path_join xml_dirpath ''*.json''))"

subsection \<open>Exceptions, log records and catalogue records\<close>

text \<open>
  The exceptions the three functions can meet, all subclasses of \<^verbatim>\<open>Exception\<close>.
  \<open>IntegrityError\<close> and \<open>OperationalError\<close> stand for the subclasses of SQLAlchemy's
  \<^verbatim>\<open>DBAPIError\<close>, with their \<^verbatim>\<open>args\<close>: the first is what a duplicate identifier raises
  on insert, the second a failure of the storage itself. \<open>RuntimeError msg cause\<close> is
  \<^verbatim>\<open>RuntimeError(msg + str(cause))\<close> raised \<^verbatim>\<open>from cause\<close>.
\<close>

datatype exn =
    JSONDecodeError
  | XMLSyntaxError
  | IntegrityError "string list"
  | OperationalError "string list"
  | OSError
  | OtherError string
  | RuntimeError string exn

fun is_DBAPIError :: "exn \<Rightarrow> bool" where
  "is_DBAPIError (IntegrityError a) = True"
| "is_DBAPIError (OperationalError a) = True"
| "is_DBAPIError _ = False"

fun exn_args :: "exn \<Rightarrow> string list" where
  "exn_args (IntegrityError a) = a"
| "exn_args (OperationalError a) = a"
| "exn_args _ = []"

text \<open>
  A log record is the method of \<^verbatim>\<open>LOGGER\<close> that was called, the message template and its
  arguments; templates are not formatted.
\<close>

datatype log_method = Info | Error | Exception

datatype log_arg = AStr string | ANat nat | AInt int | AExn exn

type_synonym log_entry = "log_method \<times> string \<times> log_arg list"

record logging =
  logged :: "log_entry list"

definition logmsg :: "log_method \<Rightarrow> string \<Rightarrow> log_arg list \<Rightarrow> 'a logging_scheme \<Rightarrow> 'a logging_scheme" where
  "logmsg m template args s = s\<lparr>logged := logged s @ [(m, template, args)]\<rparr>"

text \<open>The columns of a catalogue record that the three functions read.\<close>

datatype xml_col = XmlStr string | XmlBytes string

record md_record =
  rec_identifier :: string
  typename :: string
  schema :: string
  source :: string
  mdsource :: string
  xml :: xml_col
  metadata_type :: string

subsection \<open>load\_records\<close>

text \<open>
  The collaborators of \<^verbatim>\<open>load_records\<close>. \<open>json_load f\<close> is
  \<^verbatim>\<open>with open(f) as fh: json.load(fh)\<close>, \<open>etree_parse f\<close> is
  \<^verbatim>\<open>etree.parse(f, context.parser)\<close>, \<open>parse_record\<close> is \<^verbatim>\<open>metadata.parse_record\<close>.
  \<open>repo_insert rec source\<close> is \<^verbatim>\<open>repo.insert(rec, source, util.get_today_and_now())\<close>
  and \<open>repo_update\<close> is \<^verbatim>\<open>repo.update\<close>: each returns the exception it raised, if any, and
  the repository afterwards.
\<close>

record ('doc, 'repo) load_env =
  json_load :: "string \<Rightarrow> exn + 'doc"
  etree_parse :: "string \<Rightarrow> exn + 'doc"
  parse_record :: "'doc \<Rightarrow> 'repo \<Rightarrow> exn + md_record list"
  repo_insert :: "md_record \<Rightarrow> string \<Rightarrow> 'repo \<Rightarrow> exn option \<times> 'repo"
  repo_update :: "md_record \<Rightarrow> 'repo \<Rightarrow> exn option \<times> 'repo"

text \<open>
  Every call of the repository is recorded with its outcome (\<open>None\<close> when it returned,
  the exception when it raised), next to the file that was being processed.
\<close>

datatype repo_call =
    InsertCall md_record string "exn option"
  | UpdateCall md_record "exn option"

text \<open>
  The state of a run. \<open>loaded_files\<close> is the Python set \<^verbatim>\<open>loaded_files\<close>, kept as a list
  to which \<^verbatim>\<open>add\<close> is \<open>List.insert\<close>; \<^verbatim>\<open>tuple(loaded_files)\<close> enumerates it in an order
  Python leaves open, and the model returns the list as it is.
\<close>

record 'repo load_state = logging +
  repository :: 'repo
  loaded_files :: "string list"
  repo_calls :: "(string \<times> repo_call) list"

type_synonym 'repo load_outcome = "exn \<times> 'repo load_state + 'repo load_state"

text \<open>
  The body of \<^verbatim>\<open>for rec in record\<close>. An exception of \<^verbatim>\<open>repo.update\<close> is raised inside
  the handler of the insert and leaves \<^verbatim>\<open>load_records\<close>.
\<close>

definition insert_record ::
  "('doc, 'repo) load_env \<Rightarrow> bool \<Rightarrow> string \<Rightarrow> string \<Rightarrow> string \<Rightarrow> md_record \<Rightarrow>
   'repo load_state \<Rightarrow> 'repo load_outcome" where
  "insert_record E force_update database table recfile rec s0 =
     (let s1 = logmsg Info ''Inserting %s %s into database %s, table %s ....''
                 [AStr (typename rec), AStr (rec_identifier rec), AStr database, AStr table] s0
      in case repo_insert E rec ''local'' (repository s1) of
           (None, r) \<Rightarrow>
             Inr (logmsg Info ''Inserted %s'' [AStr recfile]
                   (s1\<lparr>repository := r,
                       repo_calls := repo_calls s1 @ [(recfile, InsertCall rec ''local'' None)],
                       loaded_files := List.insert recfile (loaded_files s1)\<rparr>))
         | (Some err, r) \<Rightarrow>
             (let s2 = s1\<lparr>repository := r,
                          repo_calls := repo_calls s1 @ [(recfile, InsertCall rec ''local'' (Some err))]\<rparr>
              in if force_update then
                   (let s3 = logmsg Info ''Record exists. Updating.'' [] s2
                    in case repo_update E rec (repository s3) of
                         (Some e, r') \<Rightarrow>
                           Inl (e, s3\<lparr>repository := r',
                                      repo_calls := repo_calls s3 @ [(recfile, UpdateCall rec (Some e))]\<rparr>)
                       | (None, r') \<Rightarrow>
                           (let s4 = logmsg Info ''Updated %s'' [AStr recfile]
                                       (s3\<lparr>repository := r',
                                           repo_calls := repo_calls s3 @ [(recfile, UpdateCall rec None)]\<rparr>)
                            in Inr (s4\<lparr>loaded_files := List.insert recfile (loaded_files s4)\<rparr>)))
                 else if is_DBAPIError err \<and> exn_args err \<noteq> [] then
                   Inr (logmsg Error ''ERROR: %s not inserted: %s''
                         [AStr recfile, AStr (hd (exn_args err))] s2)
                 else
                   Inr (logmsg Error ''ERROR: %s not inserted: %s'' [AStr recfile, AExn err] s2)))"

fun insert_records ::
  "('doc, 'repo) load_env \<Rightarrow> bool \<Rightarrow> string \<Rightarrow> string \<Rightarrow> string \<Rightarrow> md_record list \<Rightarrow>
   'repo load_state \<Rightarrow> 'repo load_outcome" where
  "insert_records E force_update database table recfile [] s = Inr s"
| "insert_records E force_update database table recfile (rec # recs) s =
     (case insert_record E force_update database table recfile rec s of
        Inl raised \<Rightarrow> Inl raised
      | Inr s' \<Rightarrow> insert_records E force_update database table recfile recs s')"

text \<open>
  \<^verbatim>\<open>metadata.parse_record\<close> in its \<^verbatim>\<open>try\<close>, then the loop over the records. An exception
  of the parse is logged and the file is left (\<^verbatim>\<open>continue\<close>).
\<close>

definition load_document ::
  "('doc, 'repo) load_env \<Rightarrow> bool \<Rightarrow> string \<Rightarrow> string \<Rightarrow> string \<Rightarrow> 'doc \<Rightarrow>
   'repo load_state \<Rightarrow> 'repo load_outcome" where
  "load_document E force_update database table recfile metadata_record s =
     (case parse_record E metadata_record (repository s) of
        Inl err \<Rightarrow> Inr (logmsg Exception ''Could not parse \"%s\" as an XML record'' [AStr recfile] s)
      | Inr record \<Rightarrow> insert_records E force_update database table recfile record s)"

text \<open>
  The body of \<^verbatim>\<open>for recfile in sorted(file_list)\<close>. The document is read by
  \<^verbatim>\<open>json.load\<close> inside the \<^verbatim>\<open>try\<close>; \<^verbatim>\<open>etree.parse\<close> is called in the handler of
  \<^verbatim>\<open>JSONDecodeError\<close>, so what it raises is not seen by the two \<^verbatim>\<open>except\<close> clauses that
  follow, which belong to the same \<^verbatim>\<open>try\<close>: it leaves \<^verbatim>\<open>load_records\<close>.
\<close>

definition load_file ::
  "('doc, 'repo) load_env \<Rightarrow> bool \<Rightarrow> string \<Rightarrow> string \<Rightarrow> nat \<Rightarrow> nat \<Rightarrow> string \<Rightarrow>
   'repo load_state \<Rightarrow> 'repo load_outcome" where
  "load_file E force_update database table ntotal counter recfile s0 =
     (let s1 = logmsg Info ''Processing file %s (%d of %d)'' [AStr recfile, ANat counter, ANat ntotal] s0
      in case json_load E recfile of
           Inr metadata_record \<Rightarrow>
             load_document E force_update database table recfile metadata_record s1
         | Inl err \<Rightarrow>
             if err = JSONDecodeError then
               (case etree_parse E recfile of
                  Inl err' \<Rightarrow> Inl (err', s1)
                | Inr metadata_record \<Rightarrow>
                    load_document E force_update database table recfile metadata_record s1)
             else if err = XMLSyntaxError then
               Inr (logmsg Error ''XML document \"%s\" is not well-formed'' [AStr recfile] s1)
             else
               Inr (logmsg Exception ''XML document \"%s\" is not well-formed'' [AStr recfile] s1))"

fun load_files ::
  "('doc, 'repo) load_env \<Rightarrow> bool \<Rightarrow> string \<Rightarrow> string \<Rightarrow> nat \<Rightarrow> nat \<Rightarrow> string list \<Rightarrow>
   'repo load_state \<Rightarrow> 'repo load_outcome" where
  "load_files E force_update database table ntotal counter [] s = Inr s"
| "load_files E force_update database table ntotal counter (recfile # rest) s =
     (case load_file E force_update database table ntotal (counter + 1) recfile s of
        Inl raised \<Rightarrow> Inl raised
      | Inr s' \<Rightarrow> load_files E force_update database table ntotal (counter + 1) rest s')"

text \<open>
  \<^verbatim>\<open>load_records\<close> from the candidate list on: the files are taken in the order of
  \<^verbatim>\<open>sorted(file_list)\<close>. \<open>repo0\<close> is the repository that
  \<^verbatim>\<open>repository.Repository(database, context, table=table)\<close> returned; the log, the set of
  loaded files and the record of repository calls start empty.
\<close>

definition init_state :: "'repo \<Rightarrow> 'repo load_state" where
  "init_state repo0 = \<lparr>logged = [], repository = repo0, loaded_files = [], repo_calls = []\<rparr>"

definition load_file_list ::
  "('doc, 'repo) load_env \<Rightarrow> 'repo \<Rightarrow> string \<Rightarrow> string \<Rightarrow> string list \<Rightarrow> bool \<Rightarrow>
   (exn + string list) \<times> 'repo load_state" where
  "load_file_list E repo0 database table file_list force_update =
     (case load_files E force_update database table (length file_list) 0 (sort file_list)
             (init_state repo0) of
        Inl (err, s) \<Rightarrow> (Inl err, s)
      | Inr s \<Rightarrow> (Inr (loaded_files s), s))"

text \<open>
  \<^verbatim>\<open>load_records(context, database, table, xml_dirpath, recursive, force_update)\<close>, run on
  the file system \<open>F\<close>. The result is the exception that left the function
  or the tuple it returned, with the final state.
\<close>

definition load_records ::
  "('doc, 'repo) load_env \<Rightarrow> file_system \<Rightarrow> 'repo \<Rightarrow> string \<Rightarrow> string \<Rightarrow> string \<Rightarrow>
   bool \<Rightarrow> bool \<Rightarrow> (exn + string list) \<times> 'repo load_state" where
  "load_records E F repo0 database table xml_dirpath recursive force_update =
     load_file_list E repo0 database table (file_list_of F xml_dirpath recursive) force_update"

subsection \<open>export\_records\<close>

text \<open>\<^verbatim>\<open>sub in s\<close> on strings.\<close>

fun contains :: "string \<Rightarrow> string \<Rightarrow> bool" where
  "contains [] sub = (sub = [])"
| "contains (c # cs) sub = (startswith (c # cs) sub \<or> contains cs sub)"

text \<open>
  The collaborators of \<^verbatim>\<open>export_records\<close>: \<^verbatim>\<open>os.path.abspath\<close>, \<^verbatim>\<open>os.path.exists\<close> and
  \<^verbatim>\<open>os.makedirs\<close> on the output directory, \<^verbatim>\<open>util.secure_filename\<close>, and
  \<^verbatim>\<open>bytes.decode('utf-8')\<close>. Below the output directory, \<open>directory_at p\<close> tells whether
  the path \<open>p\<close> is a directory, and \<open>remove_fault p\<close> is what \<^verbatim>\<open>os.remove\<close> raises, if
  anything, when it is asked to remove the regular file at \<open>p\<close> (a directory it does not
  let be written, for one). Neither changes while the function runs, which creates and
  removes regular files only.
\<close>

record export_env =
  abspath :: "string \<Rightarrow> string"
  dir_exists :: "string \<Rightarrow> bool"
  makedirs :: "string \<Rightarrow> exn option"
  secure_filename :: "string \<Rightarrow> string"
  decode_utf8 :: "string \<Rightarrow> exn + string"
  directory_at :: "string \<Rightarrow> bool"
  remove_fault :: "string \<Rightarrow> exn option"

text \<open>
  What the operating system does when a file is written: the \<^verbatim>\<open>open\<close> fails and the file
  system is as before, or the file is opened (created or truncated) and a \<^verbatim>\<open>write\<close> or the
  closing flush fails after some number of characters reached the file. Every record of the
  query comes with the fault, if any, that its write meets.
\<close>

datatype write_fault = OpenFails | WriteFails nat

text \<open>
  The state of an export: the log, the regular files below the output directory with their
  contents, the Python set \<^verbatim>\<open>exported_files\<close> (a list, \<^verbatim>\<open>add\<close> is \<open>List.insert\<close>), and
  a record of every write that was completed, with the file name and the text written.
\<close>

record export_state = logging +
  files :: "string \<rightharpoonup> string"
  exported_files :: "string list"
  written :: "(string \<times> string) list"

type_synonym export_outcome = "exn \<times> export_state + export_state"

definition xml_declaration :: string where
  "xml_declaration = ''<?xml version=\"1.0\" encoding=\"UTF-8\"?>'' @ [CHR 0x0A]"

text \<open>
  \<^verbatim>\<open>with open(filename, 'w') as xml: xml.write(declaration); xml.write(str_xml)\<close>.
  A directory cannot be opened for writing.
\<close>

definition write_document ::
  "export_env \<Rightarrow> write_fault option \<Rightarrow> string \<Rightarrow> string \<Rightarrow> (string \<rightharpoonup> string) \<Rightarrow>
   exn option \<times> (string \<rightharpoonup> string)" where
  "write_document E fault filename str_xml fs =
     (if directory_at E filename then (Some OSError, fs)
      else case fault of
             None \<Rightarrow> (None, fs(filename \<mapsto> xml_declaration @ str_xml))
           | Some OpenFails \<Rightarrow> (Some OSError, fs)
           | Some (WriteFails k) \<Rightarrow>
               (Some OSError, fs(filename \<mapsto> take k (xml_declaration @ str_xml))))"

text \<open>\<^verbatim>\<open>record.xml.decode('utf-8')\<close> if the column holds bytes, the column itself otherwise.\<close>

definition document_text :: "export_env \<Rightarrow> md_record \<Rightarrow> exn + string" where
  "document_text E record =
     (case xml record of XmlBytes b \<Rightarrow> decode_utf8 E b | XmlStr str_xml \<Rightarrow> Inr str_xml)"

definition extension_of :: "md_record \<Rightarrow> string" where
  "extension_of record = (if contains (metadata_type record) ''json'' then ''json'' else ''xml'')"

definition export_filename :: "export_env \<Rightarrow> string \<Rightarrow> md_record \<Rightarrow> string" where
  "export_filename E dirpath record =
     path_join dirpath (secure_filename E (rec_identifier record) @ ''.'' @ extension_of record)"

text \<open>
  \<^verbatim>\<open>os.path.exists(filename)\<close> and \<^verbatim>\<open>os.remove(filename)\<close>. The removal of a directory
  raises, and so may the removal of a regular file.
\<close>

definition path_exists :: "export_env \<Rightarrow> string \<Rightarrow> (string \<rightharpoonup> string) \<Rightarrow> bool" where
  "path_exists E filename fs = (filename \<in> dom fs \<or> directory_at E filename)"

definition os_remove ::
  "export_env \<Rightarrow> string \<Rightarrow> (string \<rightharpoonup> string) \<Rightarrow> exn + (string \<rightharpoonup> string)" where
  "os_remove E filename fs =
     (if directory_at E filename then Inl OSError
      else case remove_fault E filename of
             Some err \<Rightarrow> Inl err
           | None \<Rightarrow> Inr (fs(filename := None)))"

text \<open>
  The handler of a failed write: the error is logged, the file is removed if it exists, and
  the loop goes on with the next record (\<^verbatim>\<open>continue\<close>). The removal is called inside the
  handler: what it raises leaves \<^verbatim>\<open>export_records\<close>.
\<close>

definition write_failed :: "export_env \<Rightarrow> string \<Rightarrow> export_state \<Rightarrow> export_outcome" where
  "write_failed E filename s =
     (let s' = logmsg Exception ''Error writing %s to disk'' [AStr filename] s
      in if path_exists E filename (files s') then
           (case os_remove E filename (files s') of
              Inl err \<Rightarrow> Inl (err, s')
            | Inr fs \<Rightarrow> Inr (s'\<lparr>files := fs\<rparr>))
         else Inr s')"

text \<open>The body of \<^verbatim>\<open>for record in records.all()\<close>.\<close>

definition export_record ::
  "export_env \<Rightarrow> string \<Rightarrow> md_record \<times> write_fault option \<Rightarrow> export_state \<Rightarrow> export_outcome" where
  "export_record E dirpath rf s0 =
     (let record = fst rf;
          s1 = logmsg Info ''Processing %s'' [AStr (rec_identifier record)] s0;
          filename = export_filename E dirpath record;
          s2 = logmsg Info ''Writing to file %s'' [AStr filename] s1
      in case document_text E record of
           Inl err \<Rightarrow> write_failed E filename s2
         | Inr str_xml \<Rightarrow>
             (case write_document E (snd rf) filename str_xml (files s2) of
                (Some err, fs) \<Rightarrow> write_failed E filename (s2\<lparr>files := fs\<rparr>)
              | (None, fs) \<Rightarrow>
                  Inr (s2\<lparr>files := fs,
                          written := written s2 @ [(filename, xml_declaration @ str_xml)],
                          exported_files := List.insert filename (exported_files s2)\<rparr>)))"

fun export_loop ::
  "export_env \<Rightarrow> string \<Rightarrow> (md_record \<times> write_fault option) list \<Rightarrow> export_state \<Rightarrow>
   export_outcome" where
  "export_loop E dirpath [] s = Inr s"
| "export_loop E dirpath (rf # rest) s =
     (case export_record E dirpath rf s of
        Inl raised \<Rightarrow> Inl raised
      | Inr s' \<Rightarrow> export_loop E dirpath rest s')"

text \<open>\<^verbatim>\<open>return tuple(exported_files)\<close>, unless an exception left the loop.\<close>

definition export_result :: "export_outcome \<Rightarrow> (exn + string list) \<times> export_state" where
  "export_result out =
     (case out of Inl (err, s) \<Rightarrow> (Inl err, s) | Inr s \<Rightarrow> (Inr (exported_files s), s))"

text \<open>
  \<^verbatim>\<open>export_records(context, database, table, xml_dirpath)\<close>, run on the records that the
  query returns and on the files \<open>fs0\<close> already below the output directory. A failure of
  \<^verbatim>\<open>os.makedirs\<close> leaves the function: an \<^verbatim>\<open>OSError\<close> as a \<^verbatim>\<open>RuntimeError\<close>.
\<close>

definition export_records ::
  "export_env \<Rightarrow> string \<Rightarrow> string \<Rightarrow> string \<Rightarrow> (md_record \<times> write_fault option) list \<Rightarrow>
   (string \<rightharpoonup> string) \<Rightarrow> (exn + string list) \<times> export_state" where
  "export_records E database table xml_dirpath records fs0 =
     (let s0 = \<lparr>logged = [], files = fs0, exported_files = [], written = []\<rparr>;
          s1 = logmsg Info ''Querying database %s, table %s ....'' [AStr database, AStr table] s0;
          s2 = logmsg Info (''Found %d records'' @ [CHR 0x0A]) [ANat (length records)] s1;
          s3 = logmsg Info (''Exporting records'' @ [CHR 0x0A]) [] s2;
          dirpath = abspath E xml_dirpath
      in if \<not> dir_exists E dirpath then
           (let s4 = logmsg Info ''Directory %s does not exist.  Creating...'' [AStr dirpath] s3
            in case makedirs E dirpath of
                 Some err \<Rightarrow>
                   if err = OSError then
                     (Inl (RuntimeError (''Could not create '' @ dirpath @ '' '') err),
                      logmsg Exception ''Could not create directory'' [] s4)
                   else (Inl err, s4)
               | None \<Rightarrow> export_result (export_loop E dirpath records s4))
         else export_result (export_loop E dirpath records s3))"

subsection \<open>refresh\_harvested\_records\<close>

text \<open>
  The OWSLib client: \<open>connect url\<close> is the constructor \<^verbatim>\<open>CatalogueServiceWeb(url)\<close> and
  tells what it raised, if anything; \<open>harvest source schema\<close> is \<^verbatim>\<open>csw.harvest\<close> and gives
  the exception or \<^verbatim>\<open>csw.response\<close>. Every call of the client is recorded.
\<close>

record harvest_env =
  connect :: "string \<Rightarrow> exn option"
  harvest :: "string \<Rightarrow> string \<Rightarrow> exn + string"

datatype remote_call = Connect string | Harvest string string

record harvest_state = logging +
  remote_calls :: "remote_call list"

text \<open>The body of \<^verbatim>\<open>for rec in records\<close>.\<close>

definition harvest_record :: "harvest_env \<Rightarrow> md_record \<Rightarrow> harvest_state \<Rightarrow> harvest_state" where
  "harvest_record E rec s0 =
     (let s1 = logmsg Info ''Harvesting %s (identifier = %s) ...''
                 [AStr (source rec), AStr (rec_identifier rec)] s0;
          schema' = (if schema rec = ''http://www.isotc211.org/2005/gmd''
                     then ''http://www.isotc211.org/schemas/2005/gmd/'' else schema rec);
          s2 = s1\<lparr>remote_calls := remote_calls s1 @ [Harvest (source rec) schema']\<rparr>
      in case harvest E (source rec) schema' of
           Inr response \<Rightarrow> logmsg Info response [] s2
         | Inl err \<Rightarrow> logmsg Exception ''Could not harvest'' [] s2)"

fun harvest_loop :: "harvest_env \<Rightarrow> md_record list \<Rightarrow> harvest_state \<Rightarrow> harvest_state" where
  "harvest_loop E [] s = s"
| "harvest_loop E (rec # rest) s = harvest_loop E rest (harvest_record E rec s)"

text \<open>
  \<^verbatim>\<open>refresh_harvested_records(context, database, table, url)\<close>, run on the pair
  \<^verbatim>\<open>(count, records)\<close> that \<^verbatim>\<open>repos.query\<close> returned for the constraint
  \<^verbatim>\<open>mdsource != 'local'\<close>. An exception of the constructor of the client leaves the function.
\<close>

definition refresh_harvested_records ::
  "harvest_env \<Rightarrow> string \<Rightarrow> int \<Rightarrow> md_record list \<Rightarrow> (exn + unit) \<times> harvest_state" where
  "refresh_harvested_records E url rcount records =
     (let s0 = \<lparr>logged = [], remote_calls = []\<rparr>
      in if rcount > 0 then
           (let s1 = logmsg Info ''Refreshing %s harvested records'' [AInt rcount] s0;
                s2 = s1\<lparr>remote_calls := remote_calls s1 @ [Connect url]\<rparr>
            in case connect E url of
                 Some err \<Rightarrow> (Inl err, s2)
               | None \<Rightarrow> (Inr (), harvest_loop E records s2))
         else (Inr (), logmsg Info ''No harvested records'' [] s0))"

section \<open>Notions used in the statements\<close>

subsection \<open>Runs of load\_records\<close>

text \<open>The state in which a run ended, whether it returned or raised.\<close>

definition outcome_state :: "'repo load_outcome \<Rightarrow> 'repo load_state" where
  "outcome_state out = (case out of Inl (e, s) \<Rightarrow> s | Inr s \<Rightarrow> s)"

text \<open>
  A repository call succeeded if it raised nothing. \<open>ok_files\<close> lists the files during
  which a call succeeded, \<open>failed_inserts\<close> the inserts that raised and \<open>update_calls\<close> the
  calls of \<^verbatim>\<open>repo.update\<close>, each with its file.
\<close>

fun call_ok :: "repo_call \<Rightarrow> bool" where
  "call_ok (InsertCall r src res) = (res = None)"
| "call_ok (UpdateCall r res) = (res = None)"

definition ok_files :: "(string \<times> repo_call) list \<Rightarrow> string list" where
  "ok_files calls = map fst (filter (\<lambda>fc. call_ok (snd fc)) calls)"

fun failed_insert :: "repo_call \<Rightarrow> md_record list" where
  "failed_insert (InsertCall r src (Some e)) = [r]"
| "failed_insert _ = []"

fun update_call :: "repo_call \<Rightarrow> md_record list" where
  "update_call (UpdateCall r res) = [r]"
| "update_call _ = []"

definition failed_inserts :: "(string \<times> repo_call) list \<Rightarrow> (string \<times> md_record) list" where
  "failed_inserts calls = concat (map (\<lambda>fc. map (Pair (fst fc)) (failed_insert (snd fc))) calls)"

definition update_calls :: "(string \<times> repo_call) list \<Rightarrow> (string \<times> md_record) list" where
  "update_calls calls = concat (map (\<lambda>fc. map (Pair (fst fc)) (update_call (snd fc))) calls)"

text \<open>
  The files named by the log records \<^verbatim>\<open>ERROR: %s not inserted: %s\<close>, and the files named by
  the log records \<^verbatim>\<open>Processing file %s (%d of %d)\<close>, in the order of the log.
\<close>

fun not_inserted_entry :: "log_entry \<Rightarrow> string list" where
  "not_inserted_entry (m, tpl, args) =
     (if m = Error \<and> tpl = ''ERROR: %s not inserted: %s''
      then (case args of AStr f # rest \<Rightarrow> [f] | _ \<Rightarrow> []) else [])"

definition not_inserted_errors :: "log_entry list \<Rightarrow> string list" where
  "not_inserted_errors lg = concat (map not_inserted_entry lg)"

fun processing_entry :: "log_entry \<Rightarrow> string list" where
  "processing_entry (m, tpl, args) =
     (if m = Info \<and> tpl = ''Processing file %s (%d of %d)''
      then (case args of AStr f # rest \<Rightarrow> [f] | _ \<Rightarrow> []) else [])"

definition processed_files :: "log_entry list \<Rightarrow> string list" where
  "processed_files lg = concat (map processing_entry lg)"

text \<open>The log records that the body of the loop over the files writes itself.\<close>

definition file_log_kinds :: "(log_method \<times> string) set" where
  "file_log_kinds =
     {(Info, ''Processing file %s (%d of %d)''),
      (Error, ''XML document \"%s\" is not well-formed''),
      (Exception, ''XML document \"%s\" is not well-formed''),
      (Exception, ''Could not parse \"%s\" as an XML record'')}"

text \<open>
  The policy on a failed insert, as an invariant of the run: under \<^verbatim>\<open>force_update\<close> the
  updates are the failed inserts and no failure is logged as an error; without it there is no
  update and the errors logged are the failed inserts.
\<close>

definition policy_inv :: "bool \<Rightarrow> 'repo load_state \<Rightarrow> bool" where
  "policy_inv fu s =
     (update_calls (repo_calls s) = (if fu then failed_inserts (repo_calls s) else []) \<and>
      not_inserted_errors (logged s) = (if fu then [] else map fst (failed_inserts (repo_calls s))))"

subsection \<open>The scanned tree\<close>





subsection \<open>Runs of export\_records\<close>

text \<open>
  A record is written if its document could be read as text, its file name is not that of a
  directory and the operating system let the write through; \<open>written_text\<close> is the text
  written then.
\<close>

definition write_ok :: "export_env \<Rightarrow> string \<Rightarrow> md_record \<times> write_fault option \<Rightarrow> bool" where
  "write_ok E dirpath rf =
     (case document_text E (fst rf) of
        Inl err \<Rightarrow> False
      | Inr str_xml \<Rightarrow> snd rf = None \<and> \<not> directory_at E (export_filename E dirpath (fst rf)))"

definition export_state_of :: "export_outcome \<Rightarrow> export_state" where
  "export_state_of out = (case out of Inl (e, s) \<Rightarrow> s | Inr s \<Rightarrow> s)"

definition written_text :: "export_env \<Rightarrow> md_record \<Rightarrow> string" where
  "written_text E record =
     (case document_text E record of Inl err \<Rightarrow> [] | Inr str_xml \<Rightarrow> xml_declaration @ str_xml)"

text \<open>The files named by the log records \<^verbatim>\<open>Error writing %s to disk\<close>.\<close>

fun write_error_entry :: "log_entry \<Rightarrow> string list" where
  "write_error_entry (m, tpl, args) =
     (if m = Exception \<and> tpl = ''Error writing %s to disk''
      then (case args of AStr f # rest \<Rightarrow> [f] | _ \<Rightarrow> []) else [])"

definition write_errors :: "log_entry list \<Rightarrow> string list" where
  "write_errors lg = concat (map write_error_entry lg)"

subsection \<open>Concrete environments\<close>

text \<open>
  A small catalogue for the examples. A file holds a JSON document, an XML document, text
  that is neither (\<open>Malformed\<close>), or cannot be opened. A document is the list of records
  that \<^verbatim>\<open>metadata.parse_record\<close> extracts from it.
\<close>

datatype demo_file = JsonFile "md_record list" | XmlFile "md_record list" | Malformed | Unreadable

definition demo_record :: "string \<Rightarrow> md_record" where
  "demo_record i =
     \<lparr>rec_identifier = i, typename = ''csw:Record'',
      schema = ''http://www.opengis.net/cat/csw/2.0.2'', source = ''local'', mdsource = ''local'',
      xml = XmlStr ''<csw:Record/>'', metadata_type = ''application/xml''\<rparr>"

text \<open>
  Modelled from the spec: the repository behind \<open>repo_insert\<close> and \<open>repo_update\<close>
  (\<^verbatim>\<open>pycsw.core.repository\<close> is imported by \<^verbatim>\<open>admin.py\<close>, its code is not in it).
  Section 4.4 of the specification gives \<^verbatim>\<open>insert\<close> the results ok, conflict and storage
  error, and has the repository enforce unique identifiers. Here the repository is the list
  of the identifiers stored; the insert of a stored identifier raises \<open>IntegrityError\<close>, the
  insert of an identifier in \<open>locked\<close> raises \<open>OperationalError\<close>, and an update raises
  nothing and stores nothing new.
\<close>

definition demo_env ::
  "(string \<times> demo_file) list \<Rightarrow> string list \<Rightarrow> (md_record list, string list) load_env" where
  "demo_env fs locked =
     \<lparr>json_load = (\<lambda>f. case map_of fs f of
                          None \<Rightarrow> Inl OSError
                        | Some (JsonFile rs) \<Rightarrow> Inr rs
                        | Some Unreadable \<Rightarrow> Inl OSError
                        | Some _ \<Rightarrow> Inl JSONDecodeError),
      etree_parse = (\<lambda>f. case map_of fs f of
                          None \<Rightarrow> Inl OSError
                        | Some (XmlFile rs) \<Rightarrow> Inr rs
                        | Some Unreadable \<Rightarrow> Inl OSError
                        | Some _ \<Rightarrow> Inl XMLSyntaxError),
      parse_record = (\<lambda>doc stored. Inr doc),
      repo_insert = (\<lambda>rec src stored.
                       if rec_identifier rec \<in> set locked
                       then (Some (OperationalError [''database is locked'']), stored)
                       else if rec_identifier rec \<in> set stored
                       then (Some (IntegrityError [''UNIQUE constraint failed: records.identifier'']),
                             stored)
                       else (None, stored @ [rec_identifier rec])),
      repo_update = (\<lambda>rec stored. (None, stored))\<rparr>"

text \<open>
  A file system given by the nodes at some paths, in which no directory matches a pattern;
  and one whose current directory holds the directories \<^verbatim>\<open>a[b]\<close> and \<^verbatim>\<open>ab\<close>, where the
  pattern \<^verbatim>\<open>a[b]\<close> (the letter a, then one character of the set that holds b) matches
  \<^verbatim>\<open>ab\<close> and not \<^verbatim>\<open>a[b]\<close>.
\<close>

definition demo_fs :: "(string \<times> fsnode) list \<Rightarrow> file_system" where
  "demo_fs nodes = \<lparr>node_at = map_of nodes, glob_dirs = (\<lambda>dirname. [])\<rparr>"



text \<open>
  Modelled from the spec: \<^verbatim>\<open>util.secure_filename\<close> (\<^verbatim>\<open>pycsw.core.util\<close> is imported by
  \<^verbatim>\<open>admin.py\<close>, its code is not in it). Section 4.5 of the specification has it strip path
  separators and traversal sequences from the identifier: every slash and backslash is removed,
  then every pair of dots.
\<close>

fun strip_traversal :: "string \<Rightarrow> string" where
  "strip_traversal [] = []"
| "strip_traversal [c] = [c]"
| "strip_traversal (c # c' # cs) =
     (if c = CHR ''.'' \<and> c' = CHR ''.'' then strip_traversal cs else c # strip_traversal (c' # cs))"

definition spec_secure_filename :: "string \<Rightarrow> string" where
  "spec_secure_filename ident =
     strip_traversal (filter (\<lambda>c. c \<noteq> CHR ''/'' \<and> c \<noteq> CHR 0x5C) ident)"

text \<open>
  An output directory that exists and holds one directory, \<^verbatim>\<open>/out/archive.xml\<close>; every
  regular file in it can be removed.
\<close>

definition demo_export_env :: export_env where
  "demo_export_env =
     \<lparr>abspath = (\<lambda>p. if startswith p ''/'' then p else path_join ''/srv'' p),
      dir_exists = (\<lambda>p. True),
      makedirs = (\<lambda>p. None),
      secure_filename = spec_secure_filename,
      decode_utf8 = Inr,
      directory_at = (\<lambda>p. p = ''/out/archive.xml''),
      remove_fault = (\<lambda>p. None)\<rparr>"

definition demo_doc :: "string \<Rightarrow> string \<Rightarrow> string \<Rightarrow> md_record" where
  "demo_doc i mt doc =
     \<lparr>rec_identifier = i, typename = ''csw:Record'',
      schema = ''http://www.opengis.net/cat/csw/2.0.2'', source = ''local'', mdsource = ''local'',
      xml = XmlStr doc, metadata_type = mt\<rparr>"



section \<open>Properties\<close>

subsection \<open>Auxiliary facts: the loops of load\_records\<close>

lemma outcome_state_simps [simp]:
  "outcome_state (Inl (e, s)) = s" "outcome_state (Inr s) = s"
  by (simp_all add: outcome_state_def)

lemma logmsg_logged [simp]: "logged (logmsg m tpl args s) = logged s @ [(m, tpl, args)]"
  by (simp add: logmsg_def)

lemma logmsg_load [simp]:
  "loaded_files (logmsg m tpl args s) = loaded_files s"
  "repo_calls (logmsg m tpl args s) = repo_calls s"
  "repository (logmsg m tpl args s) = repository s"
  by (simp_all add: logmsg_def)

lemma insert_records_inv:
  assumes step: "\<And>rec s. P s \<Longrightarrow> P (outcome_state (insert_record E fu db t f rec s))"
  shows "P s \<Longrightarrow> P (outcome_state (insert_records E fu db t f recs s))"
proof (induction recs arbitrary: s)
  case Nil
  then show ?case by simp
next
  case (Cons r recs)
  show ?case
  proof (cases "insert_record E fu db t f r s")
    case (Inl a)
    with step [OF Cons.prems, of r] show ?thesis by simp
  next
    case (Inr s')
    with step [OF Cons.prems, of r] have "P s'" by simp
    from Cons.IH [OF this] Inr show ?thesis by simp
  qed
qed

lemma load_files_inv:
  assumes step: "\<And>c f s. f \<in> set fl \<Longrightarrow> P s \<Longrightarrow> P (outcome_state (load_file E fu db t n c f s))"
  shows "P s \<Longrightarrow> P (outcome_state (load_files E fu db t n c fl s))"
  using step
proof (induction fl arbitrary: s c)
  case Nil
  then show ?case by simp
next
  case (Cons f fl)
  have Pf: "P (outcome_state (load_file E fu db t n (c + 1) f s))"
    using Cons.prems by simp
  show ?case
  proof (cases "load_file E fu db t n (c + 1) f s")
    case (Inl a)
    with Pf show ?thesis by simp
  next
    case (Inr s')
    with Pf have "P s'" by simp
    from Cons.IH [OF this] Cons.prems(2) Inr show ?thesis by simp
  qed
qed

lemma load_document_inv:
  assumes step: "\<And>rec s. P s \<Longrightarrow> P (outcome_state (insert_record E fu db t f rec s))"
    and lg: "\<And>args s. P s \<Longrightarrow> P (logmsg Exception ''Could not parse \"%s\" as an XML record'' args s)"
  shows "P s \<Longrightarrow> P (outcome_state (load_document E fu db t f doc s))"
  unfolding load_document_def
  by (auto split: sum.splits intro!: lg insert_records_inv [where P = P] step)

lemma load_file_inv:
  assumes step: "\<And>rec s. P s \<Longrightarrow> P (outcome_state (insert_record E fu db t f rec s))"
    and lg: "\<And>m tpl args s. (m, tpl) \<in> file_log_kinds \<Longrightarrow> P s \<Longrightarrow> P (logmsg m tpl args s)"
  shows "P s \<Longrightarrow> P (outcome_state (load_file E fu db t n c f s))"
  unfolding load_file_def Let_def
  by (auto split: sum.splits intro!: lg load_document_inv [where P = P] step
        simp: file_log_kinds_def)

lemma ok_files_simps [simp]:
  "ok_files [] = []"
  "ok_files (fc # calls) = (if call_ok (snd fc) then fst fc # ok_files calls else ok_files calls)"
  "ok_files (xs @ ys) = ok_files xs @ ok_files ys"
  by (simp_all add: ok_files_def)

lemma failed_inserts_simps [simp]:
  "failed_inserts [] = []"
  "failed_inserts (fc # calls) = map (Pair (fst fc)) (failed_insert (snd fc)) @ failed_inserts calls"
  "failed_inserts (xs @ ys) = failed_inserts xs @ failed_inserts ys"
  by (simp_all add: failed_inserts_def)

lemma update_calls_simps [simp]:
  "update_calls [] = []"
  "update_calls (fc # calls) = map (Pair (fst fc)) (update_call (snd fc)) @ update_calls calls"
  "update_calls (xs @ ys) = update_calls xs @ update_calls ys"
  by (simp_all add: update_calls_def)

lemma not_inserted_errors_simps [simp]:
  "not_inserted_errors [] = []"
  "not_inserted_errors (e # lg) = not_inserted_entry e @ not_inserted_errors lg"
  "not_inserted_errors (xs @ ys) = not_inserted_errors xs @ not_inserted_errors ys"
  by (simp_all add: not_inserted_errors_def)

lemma processed_files_simps [simp]:
  "processed_files [] = []"
  "processed_files (e # lg) = processing_entry e @ processed_files lg"
  "processed_files (xs @ ys) = processed_files xs @ processed_files ys"
  by (simp_all add: processed_files_def)

lemma insert_record_loaded:
  "f \<in> A \<Longrightarrow> distinct (loaded_files s) \<and> set (loaded_files s) \<subseteq> A \<Longrightarrow>
   distinct (loaded_files (outcome_state (insert_record E fu db t f rec s))) \<and>
   set (loaded_files (outcome_state (insert_record E fu db t f rec s))) \<subseteq> A"
  by (auto simp: insert_record_def Let_def split: prod.splits option.splits)

lemma load_files_loaded:
  "distinct (loaded_files s) \<and> set (loaded_files s) \<subseteq> set fl \<Longrightarrow>
   distinct (loaded_files (outcome_state (load_files E fu db t n c fl s))) \<and>
   set (loaded_files (outcome_state (load_files E fu db t n c fl s))) \<subseteq> set fl"
  by (rule load_files_inv [where P = "\<lambda>s. distinct (loaded_files s) \<and> set (loaded_files s) \<subseteq> set fl"],
      rule load_file_inv [where P = "\<lambda>s. distinct (loaded_files s) \<and> set (loaded_files s) \<subseteq> set fl"],
      rule insert_record_loaded) simp_all

lemma insert_record_ok_files:
  "set (loaded_files s) = set (ok_files (repo_calls s)) \<Longrightarrow>
   set (loaded_files (outcome_state (insert_record E fu db t f rec s))) =
   set (ok_files (repo_calls (outcome_state (insert_record E fu db t f rec s))))"
  by (auto simp: insert_record_def Let_def split: prod.splits option.splits)

lemma load_files_ok_files:
  "set (loaded_files s) = set (ok_files (repo_calls s)) \<Longrightarrow>
   set (loaded_files (outcome_state (load_files E fu db t n c fl s))) =
   set (ok_files (repo_calls (outcome_state (load_files E fu db t n c fl s))))"
  by (rule load_files_inv [where P = "\<lambda>s. set (loaded_files s) = set (ok_files (repo_calls s))"],
      rule load_file_inv [where P = "\<lambda>s. set (loaded_files s) = set (ok_files (repo_calls s))"],
      rule insert_record_ok_files) simp_all

lemma insert_record_policy:
  "policy_inv fu s \<Longrightarrow> policy_inv fu (outcome_state (insert_record E fu db t f rec s))"
  by (auto simp: policy_inv_def insert_record_def Let_def split: prod.splits option.splits)

lemma load_files_policy:
  "policy_inv fu s \<Longrightarrow> policy_inv fu (outcome_state (load_files E fu db t n c fl s))"
  by (rule load_files_inv [where P = "policy_inv fu"],
      rule load_file_inv [where P = "policy_inv fu"],
      rule insert_record_policy) (auto simp: policy_inv_def file_log_kinds_def)

lemma insert_record_processed:
  "processed_files (logged s) = P \<Longrightarrow>
   processed_files (logged (outcome_state (insert_record E fu db t f rec s))) = P"
  by (auto simp: insert_record_def Let_def split: prod.splits option.splits)

lemma load_document_processed:
  "processed_files (logged s) = P \<Longrightarrow>
   processed_files (logged (outcome_state (load_document E fu db t f doc s))) = P"
  by (rule load_document_inv [where P = "\<lambda>s. processed_files (logged s) = P"],
      rule insert_record_processed) simp_all

lemma load_file_processed:
  "processed_files (logged (outcome_state (load_file E fu db t n c f s))) =
   processed_files (logged s) @ [f]"
  unfolding load_file_def Let_def
  by (auto split: sum.splits intro!: load_document_processed)

lemma load_files_processed_Inr:
  "load_files E fu db t n c fl s = Inr s' \<Longrightarrow>
   processed_files (logged s') = processed_files (logged s) @ fl"
proof (induction fl arbitrary: s c)
  case Nil
  then show ?case by simp
next
  case (Cons f fl)
  from Cons.prems obtain s1 where
    s1: "load_file E fu db t n (c + 1) f s = Inr s1"
    and rest: "load_files E fu db t n (c + 1) fl s1 = Inr s'"
    by (auto split: sum.splits)
  from load_file_processed [of E fu db t n "c + 1" f s] s1
  have "processed_files (logged s1) = processed_files (logged s) @ [f]" by simp
  with Cons.IH [OF rest] show ?case by simp
qed

lemma load_files_processed_prefix:
  "\<exists>rest. processed_files (logged s) @ fl =
          processed_files (logged (outcome_state (load_files E fu db t n c fl s))) @ rest"
proof (induction fl arbitrary: s c)
  case Nil
  then show ?case by simp
next
  case (Cons f fl)
  have pf: "processed_files (logged (outcome_state (load_file E fu db t n (c + 1) f s))) =
            processed_files (logged s) @ [f]"
    by (rule load_file_processed)
  show ?case
  proof (cases "load_file E fu db t n (c + 1) f s")
    case (Inl a)
    with pf show ?thesis by (cases a) auto
  next
    case (Inr s1)
    with pf have "processed_files (logged s1) = processed_files (logged s) @ [f]" by simp
    with Cons.IH [of s1 "c + 1"] Inr show ?thesis by simp
  qed
qed

lemma load_file_list_state:
  "snd (load_file_list E repo0 db t fl fu) =
   outcome_state (load_files E fu db t (length fl) 0 (sort fl) (init_state repo0))"
  by (simp add: load_file_list_def split: sum.splits prod.splits)

lemma load_file_list_Inr:
  "fst (load_file_list E repo0 db t fl fu) = Inr paths \<Longrightarrow>
   \<exists>s. load_files E fu db t (length fl) 0 (sort fl) (init_state repo0) = Inr s \<and>
       paths = loaded_files s"
  by (auto simp add: load_file_list_def split: sum.splits prod.splits)

lemma set_ok_files: "set (ok_files calls) = {f. \<exists>c. (f, c) \<in> set calls \<and> call_ok c}"
  by (induction calls) auto

lemma load_records_state:
  "snd (load_records E F repo0 db t path recursive fu) =
   outcome_state (load_files E fu db t (length (file_list_of F path recursive)) 0
                    (sort (file_list_of F path recursive)) (init_state repo0))"
  by (simp add: load_records_def load_file_list_state)

lemma load_records_Inr:
  "fst (load_records E F repo0 db t path recursive fu) = Inr paths \<Longrightarrow>
   paths = loaded_files (snd (load_records E F repo0 db t path recursive fu))"
  by (auto simp: load_records_def load_file_list_def split: sum.splits prod.splits)

subsection \<open>The files that load\_records returns\<close>

text \<open>
  C1, as amended. When \<^verbatim>\<open>load_records\<close> returns, a file is in the returned collection
  if and only if some repository call made for one of its records succeeded: an insert, or,
  under \<^verbatim>\<open>force_update\<close>, the update that follows a failed insert. One stored record is
  enough; the other records of the file may have failed.
\<close>

theorem load_records_marks_file:
  "fst (load_records E F repo0 db t path recursive fu) = Inr paths \<Longrightarrow>
   (f \<in> set paths) =
   (\<exists>c. (f, c) \<in> set (repo_calls (snd (load_records E F repo0 db t path recursive fu))) \<and>
        call_ok c)"
proof -
  assume r: "fst (load_records E F repo0 db t path recursive fu) = Inr paths"
  let ?s = "snd (load_records E F repo0 db t path recursive fu)"
  have "set (loaded_files ?s) = set (ok_files (repo_calls ?s))"
    unfolding load_records_state by (rule load_files_ok_files) (simp add: init_state_def)
  with load_records_Inr [OF r] show ?thesis
    by (simp add: set_ok_files)
qed

theorem load_records_marks_file_witness:
  "fst (load_records (demo_env [(''a.xml'', XmlFile [demo_record ''r1'', demo_record ''r2''])] [''r2''])
         (demo_fs [(''a.xml'', File)]) [] ''db'' ''records'' ''a.xml'' False False) = Inr [''a.xml''] \<and>
   (\<exists>c. (''a.xml'', c) \<in> set (repo_calls (snd
           (load_records (demo_env [(''a.xml'', XmlFile [demo_record ''r1'', demo_record ''r2''])] [''r2''])
              (demo_fs [(''a.xml'', File)]) [] ''db'' ''records'' ''a.xml'' False False))) \<and> call_ok c)"
proof -
  have h: "fst (load_records (demo_env [(''a.xml'', XmlFile [demo_record ''r1'', demo_record ''r2''])] [''r2''])
         (demo_fs [(''a.xml'', File)]) [] ''db'' ''records'' ''a.xml'' False False) = Inr [''a.xml'']"
    by code_simp
  from load_records_marks_file [OF h, of "''a.xml''"] h show ?thesis by simp
qed

text \<open>
  A file with two records, the second of which the storage rejects: the file is returned
  all the same, because the first record was inserted.
\<close>

theorem load_records_partial_file_counterexample:
  "fst (load_records (demo_env [(''a.xml'', XmlFile [demo_record ''r1'', demo_record ''r2''])] [''r2''])
         (demo_fs [(''a.xml'', File)]) [] ''db'' ''records'' ''a.xml'' False False) = Inr [''a.xml''] \<and>
   failed_inserts (repo_calls (snd
       (load_records (demo_env [(''a.xml'', XmlFile [demo_record ''r1'', demo_record ''r2''])] [''r2''])
          (demo_fs [(''a.xml'', File)]) [] ''db'' ''records'' ''a.xml'' False False))) = [(''a.xml'', demo_record ''r2'')]"
  by code_simp

subsection \<open>What load\_records does when an insert fails\<close>

text \<open>
  C2, as amended. The code does not tell a duplicate identifier from any other failure of
  the insert. Without \<^verbatim>\<open>force_update\<close> every failed insert is logged as an error, is
  followed by no other repository call for the record (no retry, no update) and does not
  mark the file; \<^verbatim>\<open>repo.update\<close> is never called. With \<^verbatim>\<open>force_update\<close> the update is
  called after every failed insert, whatever its cause, and no failure is logged as an error.
  In both cases the files marked are those with a successful repository call.
\<close>

theorem load_records_insert_failure_policy:
  "snd (load_records E F repo0 db t path recursive fu) = s \<Longrightarrow>
     update_calls (repo_calls s) = (if fu then failed_inserts (repo_calls s) else []) \<and>
     not_inserted_errors (logged s) = (if fu then [] else map fst (failed_inserts (repo_calls s))) \<and>
     set (loaded_files s) = set (ok_files (repo_calls s)) \<and>
     (\<forall>rec s0 err r. repo_insert E rec ''local'' (repository s0) = (Some err, r) \<longrightarrow>
        (\<exists>s1. insert_record E False db t f rec s0 = Inr s1 \<and>
              repo_calls s1 = repo_calls s0 @ [(f, InsertCall rec ''local'' (Some err))] \<and>
              loaded_files s1 = loaded_files s0))"
proof -
  assume s: "snd (load_records E F repo0 db t path recursive fu) = s"
  have "policy_inv fu s"
    unfolding s [symmetric] load_records_state
    by (rule load_files_policy) (simp add: policy_inv_def init_state_def)
  then have a: "update_calls (repo_calls s) = (if fu then failed_inserts (repo_calls s) else [])"
    and b: "not_inserted_errors (logged s) =
            (if fu then [] else map fst (failed_inserts (repo_calls s)))"
    by (simp_all add: policy_inv_def)
  have c: "set (loaded_files s) = set (ok_files (repo_calls s))"
    unfolding s [symmetric] load_records_state
    by (rule load_files_ok_files) (simp add: init_state_def)
  have d: "\<forall>rec s0 err r. repo_insert E rec ''local'' (repository s0) = (Some err, r) \<longrightarrow>
        (\<exists>s1. insert_record E False db t f rec s0 = Inr s1 \<and>
              repo_calls s1 = repo_calls s0 @ [(f, InsertCall rec ''local'' (Some err))] \<and>
              loaded_files s1 = loaded_files s0)"
    by (auto simp: insert_record_def Let_def)
  show ?thesis by (intro conjI a b c d)
qed

theorem load_records_insert_failure_policy_witness:
  "update_calls (repo_calls (snd
       (load_records (demo_env [(''a.xml'', XmlFile [demo_record ''r1'', demo_record ''r2''])] [''r2''])
          (demo_fs [(''a.xml'', File)]) [] ''db'' ''records'' ''a.xml'' False False))) = [] \<and>
   not_inserted_errors (logged (snd
       (load_records (demo_env [(''a.xml'', XmlFile [demo_record ''r1'', demo_record ''r2''])] [''r2''])
          (demo_fs [(''a.xml'', File)]) [] ''db'' ''records'' ''a.xml'' False False))) = [''a.xml'']"
proof -
  let ?s = "snd (load_records (demo_env [(''a.xml'', XmlFile [demo_record ''r1'', demo_record ''r2''])] [''r2''])
          (demo_fs [(''a.xml'', File)]) [] ''db'' ''records'' ''a.xml'' False False)"
  have f: "failed_inserts (repo_calls ?s) = [(''a.xml'', demo_record ''r2'')]"
    by code_simp
  note t = load_records_insert_failure_policy [OF refl,
      where E = "demo_env [(''a.xml'', XmlFile [demo_record ''r1'', demo_record ''r2''])] [''r2'']"
        and ?repo0.0 = "[]" and db = "''db''" and t = "''records''" and path = "''a.xml''"
        and F = "demo_fs [(''a.xml'', File)]" and recursive = False and fu = False
        and f = "''a.xml''"]
  from t have "update_calls (repo_calls ?s) = []"
    and "not_inserted_errors (logged ?s) = map fst (failed_inserts (repo_calls ?s))"
    by simp_all
  with f show ?thesis by simp
qed

text \<open>
  With \<^verbatim>\<open>force_update\<close>, an insert that fails because the database is locked (no duplicate
  identifier is involved) is followed by a call of \<^verbatim>\<open>repo.update\<close>, and the file is marked.
\<close>

theorem load_records_update_after_storage_error_counterexample:
  "repo_calls (snd
       (load_records (demo_env [(''a.xml'', XmlFile [demo_record ''r1''])] [''r1''])
          (demo_fs [(''a.xml'', File)]) [] ''db'' ''records'' ''a.xml'' False True)) =
     [(''a.xml'', InsertCall (demo_record ''r1'') ''local''
                    (Some (OperationalError [''database is locked'']))),
      (''a.xml'', UpdateCall (demo_record ''r1'') None)] \<and>
   fst (load_records (demo_env [(''a.xml'', XmlFile [demo_record ''r1''])] [''r1''])
          (demo_fs [(''a.xml'', File)]) [] ''db'' ''records'' ''a.xml'' False True) = Inr [''a.xml'']"
  by code_simp

subsection \<open>A file that is not well-formed\<close>

text \<open>
  C3. A directory with two files, of which \<^verbatim>\<open>a.xml\<close> is neither JSON nor well-formed XML.
  \<^verbatim>\<open>etree.parse\<close> raises \<^verbatim>\<open>XMLSyntaxError\<close> inside the handler of \<^verbatim>\<open>JSONDecodeError\<close>,
  where the clause \<^verbatim>\<open>except etree.XMLSyntaxError\<close> of the same \<^verbatim>\<open>try\<close> does not catch it:
  the exception leaves \<^verbatim>\<open>load_records\<close>, nothing is returned, and \<^verbatim>\<open>b.xml\<close> is never
  processed.
\<close>

theorem load_records_malformed_xml_raises:
  "load_records
     (demo_env [(''data/a.xml'', Malformed), (''data/b.xml'', XmlFile [demo_record ''r1''])] [])
     (demo_fs [(''data'', Dir [(''b.xml'', File), (''a.xml'', File)])])
     [] ''db'' ''records'' ''data'' False False =
   (Inl XMLSyntaxError,
    \<lparr>logged = [(Info, ''Processing file %s (%d of %d)'', [AStr ''data/a.xml'', ANat 1, ANat 2])],
     repository = [], loaded_files = [], repo_calls = []\<rparr>)"
  by code_simp

subsection \<open>The order in which the files are processed\<close>

text \<open>
  C5. From any candidate list, the files are processed in the order of the sorted list,
  which is the lexicographic order on the paths: the files named by the log records
  \<^verbatim>\<open>Processing file\<close> form an initial segment of the sorted list, and all of it when the run
  returns. The sorted list has the elements of the candidate list, and two candidate lists
  with the same elements, in whatever order they were enumerated, give the same run.
\<close>

theorem load_records_sorted_order:
  "snd (load_file_list E repo0 db t fl fu) = s \<Longrightarrow>
     (\<exists>rest. sort fl = processed_files (logged s) @ rest) \<and>
     (\<forall>paths. fst (load_file_list E repo0 db t fl fu) = Inr paths \<longrightarrow>
        processed_files (logged s) = sort fl) \<and>
     sorted (sort fl) \<and> mset (sort fl) = mset fl \<and>
     (\<forall>fl'. mset fl' = mset fl \<longrightarrow>
        load_file_list E repo0 db t fl' fu = load_file_list E repo0 db t fl fu)"
proof -
  assume s: "snd (load_file_list E repo0 db t fl fu) = s"
  let ?out = "load_files E fu db t (length fl) 0 (sort fl) (init_state repo0)"
  have st: "s = outcome_state ?out"
    using s by (simp add: load_file_list_state)
  have a: "\<exists>rest. sort fl = processed_files (logged s) @ rest"
    using load_files_processed_prefix [of "init_state repo0" "sort fl" E fu db t "length fl" 0] st
    by (simp add: init_state_def)
  have b: "\<forall>paths. fst (load_file_list E repo0 db t fl fu) = Inr paths \<longrightarrow>
        processed_files (logged s) = sort fl"
  proof (intro allI impI)
    fix paths assume "fst (load_file_list E repo0 db t fl fu) = Inr paths"
    then obtain s' where s': "?out = Inr s'" by (auto dest: load_file_list_Inr)
    from load_files_processed_Inr [OF s'] st s' show "processed_files (logged s) = sort fl"
      by (simp add: init_state_def)
  qed
  have c: "\<forall>fl'. mset fl' = mset fl \<longrightarrow>
        load_file_list E repo0 db t fl' fu = load_file_list E repo0 db t fl fu"
  proof (intro allI impI)
    fix fl' :: "string list" assume m: "mset fl' = mset fl"
    then have "sort fl' = sort fl"
      by (intro properties_for_sort) simp_all
    moreover from m have "length fl' = length fl"
      by (metis size_mset)
    ultimately show "load_file_list E repo0 db t fl' fu = load_file_list E repo0 db t fl fu"
      by (simp add: load_file_list_def)
  qed
  have d: "sorted (sort fl)" and e: "mset (sort fl) = mset fl" by simp_all
  show ?thesis by (intro conjI a b c d e)
qed

theorem load_records_sorted_order_witness:
  "processed_files (logged (snd
       (load_file_list
          (demo_env [(''data/b.xml'', XmlFile [demo_record ''r2'']), (''data/a.xml'', XmlFile [demo_record ''r1''])] [])
          [] ''db'' ''records'' [''data/b.xml'', ''data/a.xml''] False))) = [''data/a.xml'', ''data/b.xml''] \<and>
   load_file_list
     (demo_env [(''data/b.xml'', XmlFile [demo_record ''r2'']), (''data/a.xml'', XmlFile [demo_record ''r1''])] [])
     [] ''db'' ''records'' [''data/a.xml'', ''data/b.xml''] False =
   load_file_list
     (demo_env [(''data/b.xml'', XmlFile [demo_record ''r2'']), (''data/a.xml'', XmlFile [demo_record ''r1''])] [])
     [] ''db'' ''records'' [''data/b.xml'', ''data/a.xml''] False"
proof -
  let ?E = "demo_env [(''data/b.xml'', XmlFile [demo_record ''r2'']),
                      (''data/a.xml'', XmlFile [demo_record ''r1''])] []"
  have r: "fst (load_file_list ?E [] ''db'' ''records'' [''data/b.xml'', ''data/a.xml''] False) =
           Inr [''data/b.xml'', ''data/a.xml'']"
    by code_simp
  have so: "sort [''data/b.xml'', ''data/a.xml''] = [''data/a.xml'', ''data/b.xml'']"
    by code_simp
  have m: "mset [''data/a.xml'', ''data/b.xml''] = mset [''data/b.xml'', ''data/a.xml'']"
    by simp
  note t = load_records_sorted_order [OF refl,
      where E = ?E and ?repo0.0 = "[]" and db = "''db''" and t = "''records''"
        and fl = "[''data/b.xml'', ''data/a.xml'']" and fu = False]
  from t r so have "processed_files (logged (snd
       (load_file_list ?E [] ''db'' ''records'' [''data/b.xml'', ''data/a.xml''] False))) =
       [''data/a.xml'', ''data/b.xml'']"
    by metis
  moreover from t m have "load_file_list ?E [] ''db'' ''records'' [''data/a.xml'', ''data/b.xml''] False =
      load_file_list ?E [] ''db'' ''records'' [''data/b.xml'', ''data/a.xml''] False"
    by blast
  ultimately show ?thesis by (rule conjI)
qed

subsection \<open>The returned collection has no duplicates and holds candidates only\<close>

text \<open>
  C10. When \<^verbatim>\<open>load_records\<close> returns, the returned collection has no duplicates and each of
  its elements is one of the candidate files, however many records of a file were stored.
\<close>

theorem load_records_returns_distinct_subset:
  "fst (load_records E F repo0 db t path recursive fu) = Inr paths \<Longrightarrow>
   distinct paths \<and> set paths \<subseteq> set (file_list_of F path recursive)"
proof -
  assume a: "fst (load_records E F repo0 db t path recursive fu) = Inr paths"
  let ?fl = "file_list_of F path recursive"
  let ?out = "load_files E fu db t (length ?fl) 0 (sort ?fl) (init_state repo0)"
  have "distinct (loaded_files (outcome_state ?out)) \<and>
        set (loaded_files (outcome_state ?out)) \<subseteq> set (sort ?fl)"
    by (rule load_files_loaded) (simp add: init_state_def)
  moreover from load_records_Inr [OF a] have "paths = loaded_files (outcome_state ?out)"
    by (simp add: load_records_state)
  ultimately show ?thesis by simp
qed

theorem load_records_returns_distinct_subset_witness:
  "fst (load_records (demo_env [(''a.xml'', XmlFile [demo_record ''r1'', demo_record ''r2''])] [])
         (demo_fs [(''a.xml'', File)]) [] ''db'' ''records'' ''a.xml'' False False) = Inr [''a.xml''] \<and>
   distinct [''a.xml''] \<and> set [''a.xml''] \<subseteq> set (file_list_of (demo_fs [(''a.xml'', File)]) ''a.xml'' False)"
proof -
  have h: "fst (load_records (demo_env [(''a.xml'', XmlFile [demo_record ''r1'', demo_record ''r2''])] [])
         (demo_fs [(''a.xml'', File)]) [] ''db'' ''records'' ''a.xml'' False False) = Inr [''a.xml'']"
    by code_simp
  from load_records_returns_distinct_subset [OF h] h show ?thesis by blast
qed

subsection \<open>Auxiliary facts: paths, patterns and the walk\<close>













subsection \<open>The candidate files\<close>




subsection \<open>Auxiliary facts: the loop of export\_records\<close>

lemma logmsg_export [simp]:
  "files (logmsg m tpl args s) = files s"
  "exported_files (logmsg m tpl args s) = exported_files s"
  "written (logmsg m tpl args s) = written s"
  by (simp_all add: logmsg_def)

lemma write_errors_simps [simp]:
  "write_errors [] = []"
  "write_errors (e # lg) = write_error_entry e @ write_errors lg"
  "write_errors (xs @ ys) = write_errors xs @ write_errors ys"
  by (simp_all add: write_errors_def)

lemma export_state_of_simps [simp]:
  "export_state_of (Inl (e, s)) = s" "export_state_of (Inr s) = s"
  by (simp_all add: export_state_of_def)

lemma write_failed_Inr:
  "write_failed E fn s = Inr s' \<Longrightarrow>
   exported_files s' = exported_files s \<and> written s' = written s \<and>
   logged s' = logged s @ [(Exception, ''Error writing %s to disk'', [AStr fn])] \<and>
   files s' = (files s)(fn := None) \<and> \<not> directory_at E fn"
  by (auto simp: write_failed_def Let_def path_exists_def os_remove_def fun_eq_iff domIff
           split: if_splits sum.splits option.splits)

lemma write_failed_returns:
  "\<not> directory_at E fn \<Longrightarrow> remove_fault E fn = None \<Longrightarrow> \<exists>s'. write_failed E fn s = Inr s'"
  by (simp add: write_failed_def Let_def path_exists_def os_remove_def)

lemma export_record_ok:
  assumes "write_ok E d rf"
  shows "\<exists>s'. export_record E d rf s = Inr s' \<and>
     exported_files s' = List.insert (export_filename E d (fst rf)) (exported_files s) \<and>
     written s' = written s @ [(export_filename E d (fst rf), written_text E (fst rf))] \<and>
     write_errors (logged s') = write_errors (logged s) \<and>
     files s' = (files s)(export_filename E d (fst rf) \<mapsto> written_text E (fst rf))"
  using assms
  by (auto simp: export_record_def Let_def write_ok_def write_document_def written_text_def
           split: sum.splits)

lemma export_record_failed:
  assumes "\<not> write_ok E d rf" and "export_record E d rf s = Inr s'"
  shows "exported_files s' = exported_files s \<and> written s' = written s \<and>
     write_errors (logged s') = write_errors (logged s) @ [export_filename E d (fst rf)] \<and>
     files s' = (files s)(export_filename E d (fst rf) := None) \<and>
     \<not> directory_at E (export_filename E d (fst rf))"
proof -
  let ?fn = "export_filename E d (fst rf)"
  let ?s2 = "logmsg Info ''Writing to file %s'' [AStr ?fn]
              (logmsg Info ''Processing %s'' [AStr (rec_identifier (fst rf))] s)"
  have "\<exists>s2'. write_failed E ?fn s2' = Inr s' \<and> logged s2' = logged ?s2 \<and>
          exported_files s2' = exported_files s \<and> written s2' = written s \<and>
          (files s2')(?fn := None) = (files s)(?fn := None)"
  proof (cases "document_text E (fst rf)")
    case (Inl err)
    with assms(2) have "write_failed E ?fn ?s2 = Inr s'"
      by (simp add: export_record_def Let_def)
    then show ?thesis by (intro exI [of _ ?s2]) simp
  next
    case (Inr str_xml)
    obtain res fs where w: "write_document E (snd rf) ?fn str_xml (files s) = (res, fs)"
      by (cases "write_document E (snd rf) ?fn str_xml (files s)")
    from assms(1) Inr w have "res \<noteq> None"
      by (auto simp: write_ok_def write_document_def split: if_splits option.splits write_fault.splits)
    then obtain err where res: "res = Some err" by blast
    from w have fs: "fs(?fn := None) = (files s)(?fn := None)"
      by (auto simp: write_document_def split: if_splits option.splits write_fault.splits)
    from assms(2) Inr w res have "write_failed E ?fn (?s2\<lparr>files := fs\<rparr>) = Inr s'"
      by (simp add: export_record_def Let_def)
    with fs show ?thesis by (intro exI [of _ "?s2\<lparr>files := fs\<rparr>"]) simp
  qed
  then obtain s2' where f: "write_failed E ?fn s2' = Inr s'"
    and l: "logged s2' = logged ?s2" and e: "exported_files s2' = exported_files s"
    and w: "written s2' = written s"
    and fs: "(files s2')(?fn := None) = (files s)(?fn := None)" by blast
  from write_failed_Inr [OF f] l e w fs show ?thesis by simp
qed

lemma export_record_returns:
  assumes "\<not> write_ok E d rf \<longrightarrow>
     \<not> directory_at E (export_filename E d (fst rf)) \<and> remove_fault E (export_filename E d (fst rf)) = None"
  shows "\<exists>s'. export_record E d rf s = Inr s'"
proof (cases "write_ok E d rf")
  case True
  from export_record_ok [OF this] show ?thesis by blast
next
  case False
  with assms have nd: "\<not> directory_at E (export_filename E d (fst rf))"
    and rm: "remove_fault E (export_filename E d (fst rf)) = None" by simp_all
  show ?thesis
    unfolding export_record_def Let_def
    by (auto split: sum.splits prod.splits option.splits intro!: write_failed_returns [OF nd rm])
qed

text \<open>The effect of one step that did not raise, in one statement.\<close>

lemma export_record_Inr:
  assumes "export_record E d rf s = Inr s'"
  shows "exported_files s' =
           (if write_ok E d rf then List.insert (export_filename E d (fst rf)) (exported_files s)
            else exported_files s)"
    and "written s' = written s @
           (if write_ok E d rf then [(export_filename E d (fst rf), written_text E (fst rf))] else [])"
    and "write_errors (logged s') = write_errors (logged s) @
           (if write_ok E d rf then [] else [export_filename E d (fst rf)])"
    and "files s' =
           (if write_ok E d rf then (files s)(export_filename E d (fst rf) \<mapsto> written_text E (fst rf))
            else (files s)(export_filename E d (fst rf) := None))"
    and "\<not> write_ok E d rf \<Longrightarrow> \<not> directory_at E (export_filename E d (fst rf))"
proof -
  show "exported_files s' =
           (if write_ok E d rf then List.insert (export_filename E d (fst rf)) (exported_files s)
            else exported_files s)"
    using export_record_ok [of E d rf s] export_record_failed [OF _ assms] assms by auto
  show "written s' = written s @
           (if write_ok E d rf then [(export_filename E d (fst rf), written_text E (fst rf))] else [])"
    using export_record_ok [of E d rf s] export_record_failed [OF _ assms] assms by auto
  show "write_errors (logged s') = write_errors (logged s) @
           (if write_ok E d rf then [] else [export_filename E d (fst rf)])"
    using export_record_ok [of E d rf s] export_record_failed [OF _ assms] assms by auto
  show "files s' =
           (if write_ok E d rf then (files s)(export_filename E d (fst rf) \<mapsto> written_text E (fst rf))
            else (files s)(export_filename E d (fst rf) := None))"
    using export_record_ok [of E d rf s] export_record_failed [OF _ assms] assms by auto
  show "\<not> write_ok E d rf \<Longrightarrow> \<not> directory_at E (export_filename E d (fst rf))"
    using export_record_failed [OF _ assms] by simp
qed

lemma export_loop_Cons:
  "export_loop E d (rf # recs) s = Inr s' \<Longrightarrow>
   \<exists>s1. export_record E d rf s = Inr s1 \<and> export_loop E d recs s1 = Inr s'"
  by (auto split: sum.splits)

lemma export_loop_exported:
  "export_loop E d recs s = Inr s' \<Longrightarrow>
   set (exported_files s') =
   set (exported_files s) \<union> {export_filename E d (fst rf) | rf. rf \<in> set recs \<and> write_ok E d rf}"
proof (induction recs arbitrary: s)
  case Nil
  then show ?case by simp
next
  case (Cons rf recs)
  from export_loop_Cons [OF Cons.prems] obtain s1 where
    s1: "export_record E d rf s = Inr s1" and r: "export_loop E d recs s1 = Inr s'" by blast
  have A: "{export_filename E d (fst x) | x. x \<in> set (rf # recs) \<and> write_ok E d x} =
           (if write_ok E d rf then {export_filename E d (fst rf)} else {}) \<union>
           {export_filename E d (fst x) | x. x \<in> set recs \<and> write_ok E d x}"
    by (cases rf) auto
  have B: "set (exported_files s1) =
           set (exported_files s) \<union> (if write_ok E d rf then {export_filename E d (fst rf)} else {})"
    using export_record_Inr(1) [OF s1] by auto
  show ?case unfolding Cons.IH [OF r] A B by (simp add: Un_assoc)
qed

lemma export_loop_distinct:
  "export_loop E d recs s = Inr s' \<Longrightarrow> distinct (exported_files s) \<Longrightarrow> distinct (exported_files s')"
proof (induction recs arbitrary: s)
  case Nil
  then show ?case by simp
next
  case (Cons rf recs)
  from export_loop_Cons [OF Cons.prems(1)] obtain s1 where
    s1: "export_record E d rf s = Inr s1" and r: "export_loop E d recs s1 = Inr s'" by blast
  from export_record_Inr(1) [OF s1] Cons.prems(2) have "distinct (exported_files s1)" by simp
  from Cons.IH [OF r this] show ?case .
qed

lemma export_loop_written:
  "export_loop E d recs s = Inr s' \<Longrightarrow>
   written s' =
   written s @ map (\<lambda>rf. (export_filename E d (fst rf), written_text E (fst rf))) (filter (write_ok E d) recs)"
proof (induction recs arbitrary: s)
  case Nil
  then show ?case by simp
next
  case (Cons rf recs)
  from export_loop_Cons [OF Cons.prems] obtain s1 where
    s1: "export_record E d rf s = Inr s1" and r: "export_loop E d recs s1 = Inr s'" by blast
  from Cons.IH [OF r] export_record_Inr(2) [OF s1] show ?case by simp
qed

lemma export_loop_errors:
  "export_loop E d recs s = Inr s' \<Longrightarrow>
   write_errors (logged s') =
   write_errors (logged s) @ map (\<lambda>rf. export_filename E d (fst rf)) (filter (\<lambda>rf. \<not> write_ok E d rf) recs)"
proof (induction recs arbitrary: s)
  case Nil
  then show ?case by simp
next
  case (Cons rf recs)
  from export_loop_Cons [OF Cons.prems] obtain s1 where
    s1: "export_record E d rf s = Inr s1" and r: "export_loop E d recs s1 = Inr s'" by blast
  from Cons.IH [OF r] export_record_Inr(3) [OF s1] show ?case by simp
qed

lemma export_loop_no_directory:
  "export_loop E d recs s = Inr s' \<Longrightarrow> rf \<in> set recs \<Longrightarrow> \<not> write_ok E d rf \<Longrightarrow>
   \<not> directory_at E (export_filename E d (fst rf))"
proof (induction recs arbitrary: s)
  case Nil
  then show ?case by simp
next
  case (Cons rf' recs)
  from export_loop_Cons [OF Cons.prems(1)] obtain s1 where
    s1: "export_record E d rf' s = Inr s1" and r: "export_loop E d recs s1 = Inr s'" by blast
  show ?case
  proof (cases "rf = rf'")
    case True
    with export_record_Inr(5) [OF s1] Cons.prems(3) show ?thesis by simp
  next
    case False
    with Cons.prems(2) have "rf \<in> set recs" by simp
    from Cons.IH [OF r this Cons.prems(3)] show ?thesis .
  qed
qed

lemma export_loop_removed:
  "export_loop E d recs s = Inr s' \<Longrightarrow>
   \<forall>rf \<in> set recs. export_filename E d (fst rf) = p \<longrightarrow> \<not> write_ok E d rf \<Longrightarrow>
   p \<notin> dom (files s) \<or> (\<exists>rf \<in> set recs. export_filename E d (fst rf) = p) \<Longrightarrow>
   p \<notin> dom (files s')"
proof (induction recs arbitrary: s)
  case Nil
  then show ?case by simp
next
  case (Cons rf recs)
  from export_loop_Cons [OF Cons.prems(1)] obtain s1 where
    s1: "export_record E d rf s = Inr s1" and r: "export_loop E d recs s1 = Inr s'" by blast
  have "p \<notin> dom (files s1) \<or> (\<exists>rf \<in> set recs. export_filename E d (fst rf) = p)"
  proof (cases "export_filename E d (fst rf) = p")
    case True
    with Cons.prems(2) have "\<not> write_ok E d rf" by simp
    with True export_record_Inr(4) [OF s1] show ?thesis by simp
  next
    case False
    with Cons.prems(3) export_record_Inr(4) [OF s1] show ?thesis by auto
  qed
  with Cons.IH [OF r] Cons.prems(2) show ?case by simp
qed

lemma export_loop_returns:
  "\<forall>rf \<in> set recs. \<not> write_ok E d rf \<longrightarrow>
     \<not> directory_at E (export_filename E d (fst rf)) \<and>
     remove_fault E (export_filename E d (fst rf)) = None \<Longrightarrow>
   \<exists>s'. export_loop E d recs s = Inr s'"
proof (induction recs arbitrary: s)
  case Nil
  then show ?case by simp
next
  case (Cons rf recs)
  from Cons.prems have "\<not> write_ok E d rf \<longrightarrow>
     \<not> directory_at E (export_filename E d (fst rf)) \<and>
     remove_fault E (export_filename E d (fst rf)) = None" by simp
  from export_record_returns [OF this] obtain s1 where s1: "export_record E d rf s = Inr s1"
    by blast
  from Cons.prems have "\<forall>rf \<in> set recs. \<not> write_ok E d rf \<longrightarrow>
     \<not> directory_at E (export_filename E d (fst rf)) \<and>
     remove_fault E (export_filename E d (fst rf)) = None" by simp
  from Cons.IH [OF this] obtain s' where "export_loop E d recs s1 = Inr s'" by blast
  with s1 show ?case by simp
qed

lemma export_records_run:
  assumes "dir_exists E (abspath E xd) \<or> makedirs E (abspath E xd) = None"
  shows "\<exists>s0. write_errors (logged s0) = [] \<and> files s0 = fs0 \<and> exported_files s0 = [] \<and> written s0 = [] \<and>
           export_records E db t xd recs fs0 = export_result (export_loop E (abspath E xd) recs s0)"
proof -
  let ?s3 = "logmsg Info (''Exporting records'' @ [CHR 0x0A]) []
              (logmsg Info (''Found %d records'' @ [CHR 0x0A]) [ANat (length recs)]
                (logmsg Info ''Querying database %s, table %s ....'' [AStr db, AStr t]
                  \<lparr>logged = [], files = fs0, exported_files = [], written = []\<rparr>))"
  let ?s4 = "logmsg Info ''Directory %s does not exist.  Creating...'' [AStr (abspath E xd)] ?s3"
  show ?thesis
  proof (cases "dir_exists E (abspath E xd)")
    case True
    then show ?thesis
      by (intro exI [of _ ?s3]) (simp add: export_records_def Let_def)
  next
    case False
    with assms show ?thesis
      by (intro exI [of _ ?s4]) (simp add: export_records_def Let_def)
  qed
qed

lemma export_records_Inr:
  assumes "export_records E db t xd recs fs0 = (Inr paths, s)"
  shows "\<exists>s0. write_errors (logged s0) = [] \<and> files s0 = fs0 \<and> exported_files s0 = [] \<and> written s0 = [] \<and>
           export_loop E (abspath E xd) recs s0 = Inr s \<and> paths = exported_files s"
proof -
  from assms have ok: "dir_exists E (abspath E xd) \<or> makedirs E (abspath E xd) = None"
    by (auto simp: export_records_def Let_def split: if_splits option.splits)
  from export_records_run [OF ok, where db = db and t = t and recs = recs and ?fs0.0 = fs0]
  obtain s0 where s0: "write_errors (logged s0) = []" "files s0 = fs0" "exported_files s0 = []"
      "written s0 = []"
    and r: "export_records E db t xd recs fs0 = export_result (export_loop E (abspath E xd) recs s0)"
    by blast
  from r assms have "export_loop E (abspath E xd) recs s0 = Inr s \<and> paths = exported_files s"
    by (auto simp: export_result_def split: sum.splits prod.splits)
  with s0 show ?thesis by blast
qed

subsection \<open>What export\_records writes\<close>

text \<open>
  C6, as amended. For every record that \<^verbatim>\<open>export_records\<close> writes, the file name has the
  extension \<^verbatim>\<open>json\<close> when the content type contains \<^verbatim>\<open>json\<close> and \<^verbatim>\<open>xml\<close> otherwise, and
  the file is in the returned collection. For a record whose content type does not contain
  \<^verbatim>\<open>json\<close>, the text written is the XML declaration line followed by the stored document
  as it is, whether or not the document begins with a declaration of its own.
\<close>

theorem export_records_written_text:
  assumes run: "export_records E db t xd recs fs0 = (Inr paths, s)"
    and r: "(r, None) \<in> set recs"
    and doc: "document_text E r = Inr doc"
  shows "(contains (metadata_type r) ''json'' \<longrightarrow>
            path_join (abspath E xd) (secure_filename E (rec_identifier r) @ ''.json'') \<in> set paths) \<and>
         (\<not> contains (metadata_type r) ''json'' \<longrightarrow>
            path_join (abspath E xd) (secure_filename E (rec_identifier r) @ ''.xml'') \<in> set paths \<and>
            (path_join (abspath E xd) (secure_filename E (rec_identifier r) @ ''.xml''),
             xml_declaration @ doc) \<in> set (written s))"
proof -
  let ?d = "abspath E xd"
  from export_records_Inr [OF run] obtain s0 where
    s0: "exported_files s0 = []" "written s0 = []"
    and loop: "export_loop E ?d recs s0 = Inr s"
    and p: "paths = exported_files s"
    by blast
  have w: "write_ok E ?d (r, None)"
  proof (rule ccontr)
    assume n: "\<not> write_ok E ?d (r, None)"
    from export_loop_no_directory [OF loop r n]
    have "\<not> directory_at E (export_filename E ?d r)" by simp
    with doc n show False by (simp add: write_ok_def)
  qed
  with r have a: "export_filename E ?d r \<in> set paths"
    unfolding p export_loop_exported [OF loop] by force
  from r w doc have b: "(export_filename E ?d r, xml_declaration @ doc) \<in> set (written s)"
    unfolding export_loop_written [OF loop] by (force simp: written_text_def)
  from a b show ?thesis
    by (auto simp: export_filename_def extension_of_def)
qed

theorem export_records_written_text_witness:
  "export_records demo_export_env ''db'' ''records'' ''/out''
     [(demo_doc ''r1'' ''application/xml'' ''<a/>'', None),
      (demo_doc ''j1'' ''application/json'' ''{}'', None)] Map.empty =
   (Inr [''/out/j1.json'', ''/out/r1.xml''],
    snd (export_records demo_export_env ''db'' ''records'' ''/out''
     [(demo_doc ''r1'' ''application/xml'' ''<a/>'', None),
      (demo_doc ''j1'' ''application/json'' ''{}'', None)] Map.empty)) \<and>
   (''/out/r1.xml'', xml_declaration @ ''<a/>'') \<in> set (written (snd
      (export_records demo_export_env ''db'' ''records'' ''/out''
        [(demo_doc ''r1'' ''application/xml'' ''<a/>'', None),
         (demo_doc ''j1'' ''application/json'' ''{}'', None)] Map.empty))) \<and>
   ''/out/j1.json'' \<in> set [''/out/j1.json'', ''/out/r1.xml'']"
proof -
  let ?recs = "[(demo_doc ''r1'' ''application/xml'' ''<a/>'', None),
                (demo_doc ''j1'' ''application/json'' ''{}'', None)]"
  let ?run = "export_records demo_export_env ''db'' ''records'' ''/out'' ?recs Map.empty"
  have f: "fst ?run = Inr [''/out/j1.json'', ''/out/r1.xml'']"
    by code_simp
  have run: "?run = (Inr [''/out/j1.json'', ''/out/r1.xml''], snd ?run)"
    using f by (metis prod.collapse)
  have r1: "(demo_doc ''r1'' ''application/xml'' ''<a/>'', None) \<in> set ?recs"
    and j1: "(demo_doc ''j1'' ''application/json'' ''{}'', None) \<in> set ?recs"
    by simp_all
  have d1: "document_text demo_export_env (demo_doc ''r1'' ''application/xml'' ''<a/>'') = Inr ''<a/>''"
    and dj: "document_text demo_export_env (demo_doc ''j1'' ''application/json'' ''{}'') = Inr ''{}''"
    by (simp_all add: document_text_def demo_doc_def)
  have x: "\<not> contains (metadata_type (demo_doc ''r1'' ''application/xml'' ''<a/>'')) ''json''"
    and j: "contains (metadata_type (demo_doc ''j1'' ''application/json'' ''{}'')) ''json''"
    by code_simp+
  have px: "path_join (abspath demo_export_env ''/out'')
              (secure_filename demo_export_env
                 (rec_identifier (demo_doc ''r1'' ''application/xml'' ''<a/>'')) @ ''.xml'') =
            ''/out/r1.xml''"
    and pj: "path_join (abspath demo_export_env ''/out'')
              (secure_filename demo_export_env
                 (rec_identifier (demo_doc ''j1'' ''application/json'' ''{}'')) @ ''.json'') =
            ''/out/j1.json''"
    by code_simp+
  from export_records_written_text [OF run r1 d1] x px
  have "(''/out/r1.xml'', xml_declaration @ ''<a/>'') \<in> set (written (snd ?run))"
    by simp
  moreover from export_records_written_text [OF run j1 dj] j pj
  have "''/out/j1.json'' \<in> set [''/out/j1.json'', ''/out/r1.xml'']"
    by simp
  ultimately show ?thesis using run by blast
qed

text \<open>
  A record of content type \<^verbatim>\<open>application/xml\<close> whose stored document begins with the
  declaration line: the exported file holds the declaration twice.
\<close>

theorem export_records_second_declaration_counterexample:
  "startswith (xml_declaration @ ''<a/>'') xml_declaration \<and>
   files (snd (export_records demo_export_env ''db'' ''records'' ''/out''
                [(demo_doc ''r1'' ''application/xml'' (xml_declaration @ ''<a/>''), None)] Map.empty))
     ''/out/r1.xml'' = Some (xml_declaration @ xml_declaration @ ''<a/>'')"
  by code_simp

subsection \<open>A write that fails\<close>

subsection \<open>A write that fails\<close>

text \<open>
  C7, as amended. A write that fails is caught and logged, and the file at its path is
  removed if there is one. As long as no such removal raises, the loop goes on and
  \<^verbatim>\<open>export_records\<close> returns. Whenever it returns, the returned collection has no
  duplicates and holds exactly the file names under which some record was written in full;
  every failed write is logged, in order; and the file name of a failed write, unless
  another record with the same file name was written in full, is not in the returned
  collection and names neither a file nor a directory.
\<close>

theorem export_records_failures_isolated:
  assumes ok: "dir_exists E (abspath E xd) \<or> makedirs E (abspath E xd) = None"
    and run: "export_records E db t xd recs fs0 = (res, s)"
  shows "((\<forall>rf \<in> set recs. \<not> write_ok E (abspath E xd) rf \<longrightarrow>
            \<not> directory_at E (export_filename E (abspath E xd) (fst rf)) \<and>
            remove_fault E (export_filename E (abspath E xd) (fst rf)) = None) \<longrightarrow>
          res = Inr (exported_files s)) \<and>
     (\<forall>paths. res = Inr paths \<longrightarrow>
        paths = exported_files s \<and> distinct paths \<and>
        set paths =
          {export_filename E (abspath E xd) (fst rf) | rf.
             rf \<in> set recs \<and> write_ok E (abspath E xd) rf} \<and>
        write_errors (logged s) =
          map (\<lambda>rf. export_filename E (abspath E xd) (fst rf))
            (filter (\<lambda>rf. \<not> write_ok E (abspath E xd) rf) recs) \<and>
        (\<forall>rf \<in> set recs. \<not> write_ok E (abspath E xd) rf \<longrightarrow>
           (\<forall>rf' \<in> set recs. write_ok E (abspath E xd) rf' \<longrightarrow>
              export_filename E (abspath E xd) (fst rf') \<noteq> export_filename E (abspath E xd) (fst rf)) \<longrightarrow>
           export_filename E (abspath E xd) (fst rf) \<notin> set paths \<and>
           export_filename E (abspath E xd) (fst rf) \<notin> dom (files s) \<and>
           \<not> directory_at E (export_filename E (abspath E xd) (fst rf))))"
proof (intro conjI allI impI)
  let ?d = "abspath E xd"
  assume nr: "\<forall>rf \<in> set recs. \<not> write_ok E ?d rf \<longrightarrow>
            \<not> directory_at E (export_filename E ?d (fst rf)) \<and>
            remove_fault E (export_filename E ?d (fst rf)) = None"
  from export_records_run [OF ok, where db = db and t = t and recs = recs and ?fs0.0 = fs0]
  obtain s0 where r: "export_records E db t xd recs fs0 = export_result (export_loop E ?d recs s0)"
    by blast
  from export_loop_returns [OF nr] obtain s' where "export_loop E ?d recs s0 = Inr s'" by blast
  with r run show "res = Inr (exported_files s)"
    by (simp add: export_result_def)
next
  let ?d = "abspath E xd"
  fix paths assume res: "res = Inr paths"
  from export_records_Inr [OF run [unfolded res]] obtain s0 where
    s0: "exported_files s0 = []" "write_errors (logged s0) = []"
    and loop: "export_loop E ?d recs s0 = Inr s"
    and p: "paths = exported_files s"
    by blast
  show "paths = exported_files s" by (rule p)
  show "distinct paths" unfolding p by (rule export_loop_distinct [OF loop]) (simp add: s0)
  show c: "set paths = {export_filename E ?d (fst rf) | rf. rf \<in> set recs \<and> write_ok E ?d rf}"
    unfolding p export_loop_exported [OF loop] by (simp add: s0)
  show "write_errors (logged s) =
          map (\<lambda>rf. export_filename E ?d (fst rf)) (filter (\<lambda>rf. \<not> write_ok E ?d rf) recs)"
    unfolding export_loop_errors [OF loop] by (simp add: s0)
  show "\<forall>rf \<in> set recs. \<not> write_ok E ?d rf \<longrightarrow>
           (\<forall>rf' \<in> set recs. write_ok E ?d rf' \<longrightarrow>
              export_filename E ?d (fst rf') \<noteq> export_filename E ?d (fst rf)) \<longrightarrow>
           export_filename E ?d (fst rf) \<notin> set paths \<and>
           export_filename E ?d (fst rf) \<notin> dom (files s) \<and>
           \<not> directory_at E (export_filename E ?d (fst rf))"
  proof (intro ballI impI)
    fix rf assume rf: "rf \<in> set recs" "\<not> write_ok E ?d rf"
      and no: "\<forall>rf' \<in> set recs. write_ok E ?d rf' \<longrightarrow>
           export_filename E ?d (fst rf') \<noteq> export_filename E ?d (fst rf)"
    from no have 1: "export_filename E ?d (fst rf) \<notin> set paths"
      unfolding c by auto
    have 2: "export_filename E ?d (fst rf) \<notin> dom (files s)"
    proof (rule export_loop_removed [OF loop])
      show "\<forall>rf' \<in> set recs. export_filename E ?d (fst rf') = export_filename E ?d (fst rf) \<longrightarrow>
              \<not> write_ok E ?d rf'"
        using no by blast
      show "export_filename E ?d (fst rf) \<notin> dom (files s0) \<or>
            (\<exists>rf' \<in> set recs. export_filename E ?d (fst rf') = export_filename E ?d (fst rf))"
        using rf(1) by blast
    qed
    have 3: "\<not> directory_at E (export_filename E ?d (fst rf))"
      by (rule export_loop_no_directory [OF loop rf])
    show "export_filename E ?d (fst rf) \<notin> set paths \<and>
           export_filename E ?d (fst rf) \<notin> dom (files s) \<and>
           \<not> directory_at E (export_filename E ?d (fst rf))"
      by (intro conjI 1 2 3)
  qed
qed

theorem export_records_failures_isolated_witness:
  "fst (export_records demo_export_env ''db'' ''records'' ''/out''
          [(demo_doc ''r1'' ''application/xml'' ''<a/>'', None),
           (demo_doc ''r2'' ''application/xml'' ''<b/>'', Some (WriteFails 10)),
           (demo_doc ''r3'' ''application/xml'' ''<c/>'', None)] Map.empty) =
     Inr [''/out/r3.xml'', ''/out/r1.xml''] \<and>
   write_errors (logged (snd (export_records demo_export_env ''db'' ''records'' ''/out''
          [(demo_doc ''r1'' ''application/xml'' ''<a/>'', None),
           (demo_doc ''r2'' ''application/xml'' ''<b/>'', Some (WriteFails 10)),
           (demo_doc ''r3'' ''application/xml'' ''<c/>'', None)] Map.empty))) = [''/out/r2.xml''] \<and>
   ''/out/r2.xml'' \<notin> dom (files (snd (export_records demo_export_env ''db'' ''records'' ''/out''
          [(demo_doc ''r1'' ''application/xml'' ''<a/>'', None),
           (demo_doc ''r2'' ''application/xml'' ''<b/>'', Some (WriteFails 10)),
           (demo_doc ''r3'' ''application/xml'' ''<c/>'', None)] Map.empty)))"
proof -
  let ?r1 = "(demo_doc ''r1'' ''application/xml'' ''<a/>'', None :: write_fault option)"
  let ?r2 = "(demo_doc ''r2'' ''application/xml'' ''<b/>'', Some (WriteFails 10))"
  let ?r3 = "(demo_doc ''r3'' ''application/xml'' ''<c/>'', None :: write_fault option)"
  let ?E = demo_export_env
  let ?d = "abspath ?E ''/out''"
  let ?run = "export_records ?E ''db'' ''records'' ''/out'' [?r1, ?r2, ?r3] Map.empty"
  have ok: "dir_exists ?E ?d \<or> makedirs ?E ?d = None"
    by (simp add: demo_export_env_def)
  have ex: "exported_files (snd ?run) = [''/out/r3.xml'', ''/out/r1.xml'']"
    by code_simp
  have n: "export_filename ?E ?d (fst ?r1) = ''/out/r1.xml''"
          "export_filename ?E ?d (fst ?r2) = ''/out/r2.xml''"
          "export_filename ?E ?d (fst ?r3) = ''/out/r3.xml''"
    by code_simp+
  have w: "write_ok ?E ?d ?r1" "\<not> write_ok ?E ?d ?r2" "write_ok ?E ?d ?r3"
    by code_simp+
  have q: "\<not> directory_at ?E ''/out/r2.xml''" "remove_fault ?E ''/out/r2.xml'' = None"
    by (simp_all add: demo_export_env_def)
  note t = export_records_failures_isolated [OF ok prod.collapse [symmetric],
             where db = "''db''" and t = "''records''" and recs = "[?r1, ?r2, ?r3]"
               and ?fs0.0 = Map.empty]
  have pre: "\<forall>rf \<in> set [?r1, ?r2, ?r3]. \<not> write_ok ?E ?d rf \<longrightarrow>
            \<not> directory_at ?E (export_filename ?E ?d (fst rf)) \<and>
            remove_fault ?E (export_filename ?E ?d (fst rf)) = None"
    using w n q by simp
  from t [THEN conjunct1, THEN mp, OF pre] ex
  have a: "fst ?run = Inr [''/out/r3.xml'', ''/out/r1.xml'']"
    by simp
  note u = t [THEN conjunct2, THEN spec, THEN mp, OF a]
  from u have "write_errors (logged (snd ?run)) =
      map (\<lambda>rf. export_filename ?E ?d (fst rf)) (filter (\<lambda>rf. \<not> write_ok ?E ?d rf) [?r1, ?r2, ?r3])"
    by (elim conjE)
  with w n have b: "write_errors (logged (snd ?run)) = [''/out/r2.xml'']"
    by simp
  from u have "\<forall>rf \<in> set [?r1, ?r2, ?r3]. \<not> write_ok ?E ?d rf \<longrightarrow>
        (\<forall>rf' \<in> set [?r1, ?r2, ?r3]. write_ok ?E ?d rf' \<longrightarrow>
           export_filename ?E ?d (fst rf') \<noteq> export_filename ?E ?d (fst rf)) \<longrightarrow>
        export_filename ?E ?d (fst rf) \<notin> set [''/out/r3.xml'', ''/out/r1.xml''] \<and>
        export_filename ?E ?d (fst rf) \<notin> dom (files (snd ?run)) \<and>
        \<not> directory_at ?E (export_filename ?E ?d (fst rf))"
    by (elim conjE)
  then have "\<not> write_ok ?E ?d ?r2 \<longrightarrow>
        (\<forall>rf' \<in> set [?r1, ?r2, ?r3]. write_ok ?E ?d rf' \<longrightarrow>
           export_filename ?E ?d (fst rf') \<noteq> export_filename ?E ?d (fst ?r2)) \<longrightarrow>
        export_filename ?E ?d (fst ?r2) \<notin> dom (files (snd ?run))"
    by simp
  with w n have c: "''/out/r2.xml'' \<notin> dom (files (snd ?run))"
    by simp
  from a b c show ?thesis by (intro conjI)
qed

text \<open>
  Two records whose identifiers \<^verbatim>\<open>../x\<close> and \<^verbatim>\<open>x\<close> give the same file name. The first is
  written, the write of the second fails and its handler removes the file: the path of the
  failed write is returned, and no file is left under it.
\<close>

theorem export_records_failed_path_returned_counterexample:
  "fst (export_records demo_export_env ''db'' ''records'' ''/out''
          [(demo_doc ''../x'' ''application/xml'' ''<a/>'', None),
           (demo_doc ''x'' ''application/xml'' ''<b/>'', Some (WriteFails 10))] Map.empty) =
     Inr [''/out/x.xml''] \<and>
   write_errors (logged (snd (export_records demo_export_env ''db'' ''records'' ''/out''
          [(demo_doc ''../x'' ''application/xml'' ''<a/>'', None),
           (demo_doc ''x'' ''application/xml'' ''<b/>'', Some (WriteFails 10))] Map.empty))) =
     [''/out/x.xml''] \<and>
   files (snd (export_records demo_export_env ''db'' ''records'' ''/out''
          [(demo_doc ''../x'' ''application/xml'' ''<a/>'', None),
           (demo_doc ''x'' ''application/xml'' ''<b/>'', Some (WriteFails 10))] Map.empty))
     ''/out/x.xml'' = None"
  by code_simp

text \<open>
  A record whose file name is that of a directory. The \<^verbatim>\<open>open\<close> fails, the handler finds
  that the path exists and calls \<^verbatim>\<open>os.remove\<close>, which raises inside the handler: the
  exception leaves \<^verbatim>\<open>export_records\<close> and the record after it is never written.
\<close>

lemma export_records_removal_raises:
  "fst (export_records demo_export_env ''db'' ''records'' ''/out''
          [(demo_doc ''archive'' ''application/xml'' ''<a/>'', None),
           (demo_doc ''r1'' ''application/xml'' ''<b/>'', None)] Map.empty) = Inl OSError \<and>
   write_errors (logged (snd (export_records demo_export_env ''db'' ''records'' ''/out''
          [(demo_doc ''archive'' ''application/xml'' ''<a/>'', None),
           (demo_doc ''r1'' ''application/xml'' ''<b/>'', None)] Map.empty))) =
     [''/out/archive.xml''] \<and>
   written (snd (export_records demo_export_env ''db'' ''records'' ''/out''
          [(demo_doc ''archive'' ''application/xml'' ''<a/>'', None),
           (demo_doc ''r1'' ''application/xml'' ''<b/>'', None)] Map.empty)) = []"
  by code_simp

subsection \<open>Refreshing harvested records\<close>

lemma logmsg_harvest [simp]: "remote_calls (logmsg m tpl args s) = remote_calls s"
  by (simp add: logmsg_def)


text \<open>
  C8. When the query for the records with \<^verbatim>\<open>mdsource != 'local'\<close> returns the count zero,
  \<^verbatim>\<open>refresh_harvested_records\<close> returns without an exception, its only log record is
  \<^verbatim>\<open>No harvested records\<close>, and it makes no call of the remote client, not even the call
  that constructs it.
\<close>

theorem refresh_harvested_records_noop:
  "refresh_harvested_records E url 0 records =
   (Inr (), \<lparr>logged = [(Info, ''No harvested records'', [])], remote_calls = []\<rparr>)"
  by (simp add: refresh_harvested_records_def logmsg_def)



end
